theory Spec2Isabelle
  imports Main "HOL-Library.Sublist" "HOL-Library.List_Lexorder" "HOL-Library.Char_ord"
begin

section \<open>Graph model (nodes.py)\<close>

text \<open>
  The three node classes share the attributes \<open>id\<close> and \<open>name\<close> of the base class
  \<open>Node\<close>.  The attribute \<open>id\<close> is called \<open>id_tag\<close> here (the name of the constructor
  argument), since \<open>id\<close> is the identity function of HOL.

  A dict attribute is the list of its items in insertion order; the keys of a dict are
  distinct, so a lookup (\<open>map_of\<close>) takes the only match.

  Python holds object references in \<open>Solution.requires\<close>; a cyclic reference graph
  is no finite datatype value, and the validation functions read nothing but \<open>.id\<close> of a
  referenced Solution, so \<open>requires\<close> holds the ids of the referenced objects, in order.
\<close>

datatype cvalue = CStr string | CInt int | CBool bool

record node =
  id_tag :: string
  name :: string

record goal = node +
  acceptance_test :: string
  goal_description :: string

record solution = node +
  satisfies :: "goal list"
  requires :: "string list"
  constraints :: "(string \<times> cvalue) list"
  solution_description :: string

record implementation = node +
  implements :: solution
  code_files :: "string list"
  test_files :: "string list"
  must_define :: "(string \<times> string list) list"
  implementation_description :: string

text \<open>
  \<open>x or []\<close> in a constructor: an omitted argument or \<open>None\<close> is \<open>None\<close> here, and a
  falsy (empty) list is replaced by the fresh empty default as well.
\<close>

definition or_default :: "'a list option \<Rightarrow> 'a list \<Rightarrow> 'a list" where
  "or_default x d = (case x of None \<Rightarrow> d | Some xs \<Rightarrow> if xs = [] then d else xs)"

definition Solution_init ::
  "string \<Rightarrow> string \<Rightarrow> goal list option \<Rightarrow> string list option \<Rightarrow>
   (string \<times> cvalue) list option \<Rightarrow> string \<Rightarrow> solution" where
  "Solution_init i n sat req con d =
     \<lparr> id_tag = i, name = n,
       satisfies = or_default sat [],
       requires = or_default req [],
       constraints = or_default con [],
       solution_description = d \<rparr>"

definition Implementation_init ::
  "string \<Rightarrow> string \<Rightarrow> solution \<Rightarrow> string list option \<Rightarrow> string list option \<Rightarrow>
   (string \<times> string list) list option \<Rightarrow> string \<Rightarrow> implementation" where
  "Implementation_init i n sol cf tf md d =
     \<lparr> id_tag = i, name = n,
       implements = sol,
       code_files = or_default cf [],
       test_files = or_default tf [],
       must_define = or_default md [],
       implementation_description = d \<rparr>"

definition Goal_init :: "string \<Rightarrow> string \<Rightarrow> string \<Rightarrow> string \<Rightarrow> goal" where
  "Goal_init i n t d = \<lparr> id_tag = i, name = n, acceptance_test = t, goal_description = d \<rparr>"

section \<open>Validation errors\<close>

text \<open>
  Every \<open>errors.append(f"...")\<close> of validation.py is one constructor, holding the values
  the f-string interpolates, in the order they appear in the text.
\<close>

datatype verror =
    ImplementsMissing string string
  | OrphanedSolution string
  | SatisfiesMissing string string
  | OrphanedGoal string
  | UnimplementedSolution string
  | RequiresMissing string string
  | CircularDependency "string list"
  | MissingCodeFile string string
  | MissingSymbols string string "string list"
  | ExtractionFailed string string string
  | UndeclaredCodeFile string
  | MissingAcceptanceTest string string
  | MissingTestFile string string

text \<open>
  The text of each error.  A Python string is a sequence of code points; here it is the
  list of the bytes of its UTF-8 encoding, so the arrow U+2192 of the cycle message is
  three characters.
\<close>

definition arrow :: string where
  "arrow = [CHR 0xE2, CHR 0x86, CHR 0x92]"

fun join :: "string \<Rightarrow> string list \<Rightarrow> string" where
  "join sep [] = []"
| "join sep [x] = x"
| "join sep (x # y # ys) = x @ sep @ join sep (y # ys)"

text \<open>
  \<open>repr\<close> of a string, which the f-string applies to the members of
  \<open>sorted(missing)\<close>: single quotes, unless the string holds a single quote and no
  double quote; the backslash, the chosen quote and the control characters are escaped.
  This is \<open>repr\<close> on ASCII strings.  Beyond ASCII, \<open>repr\<close> also escapes the characters
  that are not printable (as \<open>\xNN\<close>, \<open>\uNNNN\<close> or \<open>\UNNNNNNNN\<close>) and keeps the others;
  a string here is a list of bytes, and a byte from 128 on is kept as it is.
\<close>

definition hex2 :: "nat \<Rightarrow> string" where
  "hex2 n = [''0123456789abcdef'' ! (n div 16 mod 16), ''0123456789abcdef'' ! (n mod 16)]"

definition repr_char :: "char \<Rightarrow> char \<Rightarrow> string" where
  "repr_char q c =
     (if c = CHR 0x5C then [CHR 0x5C, CHR 0x5C]
      else if c = q then [CHR 0x5C, q]
      else if c = CHR 0x0A then [CHR 0x5C, CHR ''n'']
      else if c = CHR 0x0D then [CHR 0x5C, CHR ''r'']
      else if c = CHR 0x09 then [CHR 0x5C, CHR ''t'']
      else if (of_char c :: nat) < 32 \<or> (of_char c :: nat) = 127
        then [CHR 0x5C, CHR ''x''] @ hex2 (of_char c)
      else [c])"

definition repr_str :: "string \<Rightarrow> string" where
  "repr_str s =
     (let q = (if CHR 0x27 \<in> set s \<and> CHR 0x22 \<notin> set s then CHR 0x22 else CHR 0x27)
      in [q] @ concat (map (repr_char q) s) @ [q])"

definition repr_list :: "string list \<Rightarrow> string" where
  "repr_list xs = ''['' @ join '', '' (map repr_str xs) @ '']''"

fun message :: "verror \<Rightarrow> string" where
  "message (ImplementsMissing impl_id sol_id) =
     impl_id @ '' implements '' @ sol_id @ '' which doesn'' @ [CHR 0x27] @ ''t exist''"
| "message (OrphanedSolution sol_id) = sol_id @ '' satisfies no goals (orphaned solution)''"
| "message (SatisfiesMissing sol_id goal_id) =
     sol_id @ '' satisfies '' @ goal_id @ '' which doesn'' @ [CHR 0x27] @ ''t exist''"
| "message (OrphanedGoal goal_id) =
     goal_id @ '' is not satisfied by any solution (orphaned goal)''"
| "message (UnimplementedSolution sol_id) =
     sol_id @ '' has no implementation (unimplemented solution)''"
| "message (RequiresMissing sol_id req_id) =
     sol_id @ '' requires '' @ req_id @ '' which doesn'' @ [CHR 0x27] @ ''t exist''"
| "message (CircularDependency cycle) =
     ''Circular dependency detected: '' @ join ('' '' @ arrow @ '' '') cycle"
| "message (MissingCodeFile impl_id file_path) = impl_id @ '': Missing code file '' @ file_path"
| "message (MissingSymbols impl_id file_path missing) =
     impl_id @ '': '' @ file_path @ '' missing symbols: '' @ repr_list missing"
| "message (ExtractionFailed impl_id file_path e) = impl_id @ '': '' @ file_path @ '' - '' @ e"
| "message (UndeclaredCodeFile rel_path) =
     ''Undeclared code file: '' @ rel_path @ '' (not in any Implementation)''"
| "message (MissingAcceptanceTest goal_id path) =
     goal_id @ '': Missing acceptance test file '' @ path"
| "message (MissingTestFile impl_id test_file) = impl_id @ '': Missing test file '' @ test_file"

section \<open>Dependency check (validation.py, validate_dependencies)\<close>

text \<open>
  \<open>{s.id: s for s in solutions}\<close>: a later Solution with the same id replaces an
  earlier one, so the lookup takes the last match.
\<close>

definition solution_map :: "solution list \<Rightarrow> string \<rightharpoonup> solution" where
  "solution_map sols = map_of (rev (map (\<lambda>s. (id_tag s, s)) sols))"

fun requires_errors :: "(string \<rightharpoonup> solution) \<Rightarrow> string \<Rightarrow> string list \<Rightarrow> verror list" where
  "requires_errors smap sid [] = []"
| "requires_errors smap sid (r # rs) =
     (if smap r = None then RequiresMissing sid r # requires_errors smap sid rs
      else requires_errors smap sid rs)"

text \<open>
  \<open>has_cycle\<close> mutates the set \<open>visited\<close>, which all calls share, so the model returns
  it.  \<open>path\<close> is a Python set too; it is kept here as the list of its members in the
  order they were added (a member is added only when absent and the last one added is
  the one removed), and \<open>list(path)\<close> is \<open>order path\<close>: the parameter \<open>order\<close> stands for
  the iteration order of a set of strings, which CPython derives from the strings'
  hashes and not from the order of insertion.  \<open>has_cycle_reqs\<close> is the loop
  \<open>for req in sol.requires\<close>.
\<close>

function has_cycle ::
    "(string list \<Rightarrow> string list) \<Rightarrow> solution list \<Rightarrow> string \<Rightarrow> string set \<Rightarrow> string list
      \<Rightarrow> string list option \<times> string set"
  and has_cycle_reqs ::
    "(string list \<Rightarrow> string list) \<Rightarrow> solution list \<Rightarrow> string list \<Rightarrow> string set \<Rightarrow> string list
      \<Rightarrow> string list option \<times> string set"
where
  "has_cycle order sols start_id visited path =
     (if start_id \<in> set path then (Some (order path @ [start_id]), visited)
      else if start_id \<in> visited then (None, visited)
      else (case solution_map sols start_id of
              None \<Rightarrow> (None, insert start_id visited)
            | Some sol \<Rightarrow>
                has_cycle_reqs order sols (requires sol) (insert start_id visited)
                  (path @ [start_id])))"
| "has_cycle_reqs order sols [] visited path = (None, visited)"
| "has_cycle_reqs order sols (req # reqs) visited path =
     (case has_cycle order sols req visited path of
        (Some cycle, visited') \<Rightarrow>
          if cycle \<noteq> [] then (Some cycle, visited')
          else has_cycle_reqs order sols reqs visited' path
      | (None, visited') \<Rightarrow> has_cycle_reqs order sols reqs visited' path)"
  by pat_completeness auto


text \<open>
  Termination: a call that expands a node adds an id of \<open>sols\<close> to \<open>visited\<close>, and no
  call removes one.
\<close>

lemma solution_map_dom: "solution_map sols k = Some s \<Longrightarrow> k \<in> id_tag ` set sols"
  unfolding solution_map_def by (auto dest!: map_of_SomeD)

lemma has_cycle_visited_mono:
  "has_cycle_has_cycle_reqs_dom (Inl (order, sols, start_id, visited, path)) \<Longrightarrow>
     visited \<subseteq> snd (has_cycle order sols start_id visited path)"
  "has_cycle_has_cycle_reqs_dom (Inr (order, sols, reqs, visited, path)) \<Longrightarrow>
     visited \<subseteq> snd (has_cycle_reqs order sols reqs visited path)"
proof (induct rule: has_cycle_has_cycle_reqs.pinduct)
  case (1 order sols start_id visited path)
  then show ?case
    by (auto simp: has_cycle.psimps split: option.splits)
next
  case (2 order sols visited path)
  then show ?case by (simp add: has_cycle_reqs.psimps)
next
  case (3 order sols req reqs visited path)
  show ?case
  proof (cases "has_cycle order sols req visited path")
    case (Pair r v')
    with 3(2) have sub: "visited \<subseteq> v'" by simp
    show ?thesis
    proof (cases "r = None \<or> r = Some []")
      case True
      with 3(3,4) Pair have "v' \<subseteq> snd (has_cycle_reqs order sols reqs v' path)"
        by (cases r) auto
      with sub True Pair show ?thesis
        by (auto simp: has_cycle_reqs.psimps(2)[OF 3(1)])
    next
      case False
      with sub Pair show ?thesis
        by (auto simp: has_cycle_reqs.psimps(2)[OF 3(1)] split: option.splits)
    qed
  qed
qed

termination has_cycle
proof (relation
    "(\<lambda>x. case x of Inl (_, sols, _, visited, _) \<Rightarrow> card (id_tag ` set sols - visited)
                  | Inr (_, sols, _, visited, _) \<Rightarrow> card (id_tag ` set sols - visited))
     <*mlex*> (\<lambda>x. case x of Inl _ \<Rightarrow> 0 | Inr (_, _, reqs, _, _) \<Rightarrow> Suc (length reqs))
     <*mlex*> {}", goal_cases)
  case 1
  then show ?case by (simp add: wf_mlex)
next
  case (2 order sols start_id visited path sol)
  then have "start_id \<in> id_tag ` set sols - visited"
    by (auto dest: solution_map_dom)
  then have "card (id_tag ` set sols - insert start_id visited)
      < card (id_tag ` set sols - visited)"
    by (intro psubset_card_mono) auto
  then show ?case by (simp add: mlex_less)
next
  case (3 order sols req reqs visited path)
  then show ?case by (simp add: mlex_leq mlex_less)
next
  case (4 order sols req reqs visited path x y)
  then have "visited \<subseteq> y"
    using has_cycle_visited_mono(1)[of order sols req visited path] by (metis snd_conv)
  then have "card (id_tag ` set sols - y) \<le> card (id_tag ` set sols - visited)"
    by (intro card_mono) auto
  then show ?case by (simp add: mlex_iff) arith
next
  case (5 order sols req reqs visited path x y z)
  then have "visited \<subseteq> y"
    using has_cycle_visited_mono(1)[of order sols req visited path] by (metis snd_conv)
  then have "card (id_tag ` set sols - y) \<le> card (id_tag ` set sols - visited)"
    by (intro card_mono) auto
  then show ?case by (simp add: mlex_iff) arith
qed

text \<open>
  The loop over the DFS roots: \<open>for sol in solutions: if sol.id not in visited: ...\<close>.
  \<open>if cycle:\<close> holds for a list that is neither \<open>None\<close> nor empty.
\<close>

fun cycle_errors ::
  "(string list \<Rightarrow> string list) \<Rightarrow> solution list \<Rightarrow> solution list \<Rightarrow> string set \<Rightarrow> verror list"
where
  "cycle_errors order sols [] visited = []"
| "cycle_errors order sols (sol # rest) visited =
     (if id_tag sol \<notin> visited then
        (case has_cycle order sols (id_tag sol) visited [] of
           (Some cycle, visited') \<Rightarrow>
             if cycle \<noteq> [] then CircularDependency cycle # cycle_errors order sols rest visited'
             else cycle_errors order sols rest visited'
         | (None, visited') \<Rightarrow> cycle_errors order sols rest visited')
      else cycle_errors order sols rest visited)"

definition validate_dependencies ::
  "(string list \<Rightarrow> string list) \<Rightarrow> solution list \<Rightarrow> verror list" where
  "validate_dependencies order solutions =
     concat (map (\<lambda>sol. requires_errors (solution_map solutions) (id_tag sol) (requires sol))
                 solutions)
     @ cycle_errors order solutions solutions {}"

text \<open>
  What is known of the iteration order of a set: it lists the members, each once.
\<close>

definition set_iteration :: "(string list \<Rightarrow> string list) \<Rightarrow> bool" where
  "set_iteration order = (\<forall>xs. distinct xs \<longrightarrow> distinct (order xs) \<and> set (order xs) = set xs)"

section \<open>Traceability check (validation.py, validate_traceability)\<close>

definition goal_map :: "goal list \<Rightarrow> string \<rightharpoonup> goal" where
  "goal_map goals = map_of (rev (map (\<lambda>g. (id_tag g, g)) goals))"

fun satisfies_errors :: "(string \<rightharpoonup> goal) \<Rightarrow> string \<Rightarrow> goal list \<Rightarrow> verror list" where
  "satisfies_errors gmap sid [] = []"
| "satisfies_errors gmap sid (g # gs) =
     (if gmap (id_tag g) = None then SatisfiesMissing sid (id_tag g) # satisfies_errors gmap sid gs
      else satisfies_errors gmap sid gs)"

text \<open>The body of the first loop, for one Implementation, with its two \<open>continue\<close>s.\<close>

definition trace_impl ::
  "(string \<rightharpoonup> solution) \<Rightarrow> (string \<rightharpoonup> goal) \<Rightarrow> implementation \<Rightarrow> verror list" where
  "trace_impl smap gmap impl =
     (let sol = implements impl in
      case smap (id_tag sol) of
        None \<Rightarrow> [ImplementsMissing (id_tag impl) (id_tag sol)]
      | Some sol_obj \<Rightarrow>
          if satisfies sol_obj = [] then [OrphanedSolution (id_tag sol_obj)]
          else satisfies_errors gmap (id_tag sol_obj) (satisfies sol_obj))"

text \<open>
  The keys of a dict built by a comprehension, in iteration order: each key at the place
  of its first occurrence.
\<close>

fun dict_keys :: "'a list \<Rightarrow> 'a list \<Rightarrow> 'a list" where
  "dict_keys ks [] = ks"
| "dict_keys ks (x # xs) = dict_keys (if x \<in> set ks then ks else ks @ [x]) xs"

definition orphaned_goals :: "solution list \<Rightarrow> goal list \<Rightarrow> verror list" where
  "orphaned_goals solutions goals =
     map OrphanedGoal
       (filter (\<lambda>goal_id. \<not> (\<exists>sol \<in> set solutions. \<exists>goal \<in> set (satisfies sol). id_tag goal = goal_id))
          (dict_keys [] (map id_tag goals)))"

definition unimplemented_solutions :: "implementation list \<Rightarrow> solution list \<Rightarrow> verror list" where
  "unimplemented_solutions implementations solutions =
     map UnimplementedSolution
       (filter (\<lambda>sol_id. \<not> (\<exists>impl \<in> set implementations. id_tag (implements impl) = sol_id))
          (dict_keys [] (map id_tag solutions)))"

definition validate_traceability ::
  "implementation list \<Rightarrow> solution list \<Rightarrow> goal list \<Rightarrow> verror list" where
  "validate_traceability implementations solutions goals =
     concat (map (trace_impl (solution_map solutions) (goal_map goals)) implementations)
     @ orphaned_goals solutions goals
     @ unimplemented_solutions implementations solutions"

section \<open>Symbol extraction for Python (parsing/python.py)\<close>

text \<open>
  The tree that \<open>ast.parse\<close> returns, as far as \<open>extract_python_symbols\<close> looks at it:
  the statements, with the names they define and the statements nested in them.
  \<open>Compound\<close> is any other compound statement (\<open>if\<close>, \<open>for\<close>, \<open>while\<close>, \<open>with\<close>,
  \<open>try\<close>, \<open>match\<close>) with the statements of all its blocks; \<open>Simple\<close> is a statement
  with no statement inside.  An assignment target is a \<open>Name\<close> or something else (a
  tuple, an attribute, a subscript).  Expressions hold no statement, so they are left out.
\<close>

datatype expr = Name string | OtherTarget

datatype stmt =
    Assign "expr list"
  | AnnAssign expr
  | FunctionDef string "stmt list"
  | AsyncFunctionDef string "stmt list"
  | ClassDef string "stmt list"
  | Compound "stmt list"
  | Simple

record symbols =
  classes :: "string set"
  "functions" :: "string set"
  globals :: "string set"

text \<open>
  \<open>ast.walk\<close>: a node and all its descendants.  The source compares nodes by identity
  (\<open>node in module_body\<close>, \<open>node in ast.walk(parent)\<close>), so every node comes with its
  position in the tree, the list of child indices leading to it.  The results are
  collected in sets, so the order of the walk does not matter.
\<close>

fun walk :: "nat list \<Rightarrow> stmt \<Rightarrow> (nat list \<times> stmt) list"
  and walk_body :: "nat list \<Rightarrow> nat \<Rightarrow> stmt list \<Rightarrow> (nat list \<times> stmt) list"
where
  "walk pos (FunctionDef n body) = (pos, FunctionDef n body) # walk_body pos 0 body"
| "walk pos (AsyncFunctionDef n body) = (pos, AsyncFunctionDef n body) # walk_body pos 0 body"
| "walk pos (ClassDef n body) = (pos, ClassDef n body) # walk_body pos 0 body"
| "walk pos (Compound body) = (pos, Compound body) # walk_body pos 0 body"
| "walk pos (Assign targets) = [(pos, Assign targets)]"
| "walk pos (AnnAssign target) = [(pos, AnnAssign target)]"
| "walk pos Simple = [(pos, Simple)]"
| "walk_body pos i [] = []"
| "walk_body pos i (s # ss) = walk (pos @ [i]) s @ walk_body pos (Suc i) ss"

text \<open>\<open>tree.body\<close> with positions, and the walk of the whole module.\<close>

fun body_nodes :: "nat \<Rightarrow> stmt list \<Rightarrow> (nat list \<times> stmt) list" where
  "body_nodes i [] = []"
| "body_nodes i (s # ss) = ([i], s) # body_nodes (Suc i) ss"

definition walk_module :: "stmt list \<Rightarrow> (nat list \<times> stmt) list" where
  "walk_module tree = walk_body [] 0 tree"

fun is_def :: "stmt \<Rightarrow> bool" where
  "is_def (FunctionDef n body) = True"
| "is_def (AsyncFunctionDef n body) = True"
| "is_def (ClassDef n body) = True"
| "is_def s = False"

text \<open>
  The flag \<open>is_top_level\<close> of an assignment node: it is a statement of the module body,
  or some statement of the module body that is no function or class definition holds it.
\<close>

definition is_top_level :: "stmt list \<Rightarrow> nat list \<times> stmt \<Rightarrow> bool" where
  "is_top_level tree node =
     (node \<in> set (body_nodes 0 tree)
      \<or> (\<exists>parent \<in> set (body_nodes 0 tree).
            node \<in> set (walk (fst parent) (snd parent)) \<and> \<not> is_def (snd parent)))"

fun name_ids :: "expr list \<Rightarrow> string list" where
  "name_ids [] = []"
| "name_ids (Name x # ts) = x # name_ids ts"
| "name_ids (OtherTarget # ts) = name_ids ts"

fun class_names :: "stmt \<Rightarrow> string list" where
  "class_names (ClassDef n body) = [n]"
| "class_names s = []"

fun function_names :: "stmt \<Rightarrow> string list" where
  "function_names (FunctionDef n body) = [n]"
| "function_names (AsyncFunctionDef n body) = [n]"
| "function_names s = []"

fun global_names :: "stmt list \<Rightarrow> nat list \<times> stmt \<Rightarrow> string list" where
  "global_names tree (pos, Assign targets) =
     (if is_top_level tree (pos, Assign targets) then name_ids targets else [])"
| "global_names tree (pos, AnnAssign target) =
     (if is_top_level tree (pos, AnnAssign target) then name_ids [target] else [])"
| "global_names tree (pos, s) = []"

definition python_symbols :: "stmt list \<Rightarrow> symbols" where
  "python_symbols tree =
     \<lparr> classes = set (concat (map (class_names \<circ> snd) (walk_module tree))),
       functions = set (concat (map (function_names \<circ> snd) (walk_module tree))),
       globals = set (concat (map (global_names tree) (walk_module tree))) \<rparr>"

text \<open>
  Reading and parsing are the library's: \<open>read_text\<close> is \<open>open(path).read()\<close> and
  \<open>ast_parse\<close> is \<open>ast.parse\<close>, each giving the text of the exception it raises or its
  result.  Every exception leaves \<open>extract_python_symbols\<close> as a \<open>ValueError\<close>, whose
  message is the \<open>Inl\<close> value here.
\<close>

datatype py_exception = SyntaxError string | OtherException string

record parser_env =
  read_text :: "string \<Rightarrow> string + string"
  ast_parse :: "string \<Rightarrow> py_exception + stmt list"

definition extract_python_symbols :: "parser_env \<Rightarrow> string \<Rightarrow> string + symbols" where
  "extract_python_symbols env file_path =
     (case read_text env file_path of
        Inl e \<Rightarrow> Inl (''Failed to parse '' @ file_path @ '': '' @ e)
      | Inr content \<Rightarrow>
          (case ast_parse env content of
             Inl (SyntaxError e) \<Rightarrow> Inl (''Syntax error in '' @ file_path @ '': '' @ e)
           | Inl (OtherException e) \<Rightarrow> Inl (''Failed to parse '' @ file_path @ '': '' @ e)
           | Inr tree \<Rightarrow> Inr (python_symbols tree)))"

section \<open>Paths (os.path)\<close>

text \<open>\<open>os.path.join(a, b)\<close> on POSIX.\<close>

definition path_join :: "string \<Rightarrow> string \<Rightarrow> string" where
  "path_join a b =
     (if take 1 b = ''/'' then b
      else if a = [] \<or> last a = CHR ''/'' then a @ b
      else a @ ''/'' @ b)"

text \<open>
  \<open>os.path.splitext(p)[1]\<close>: the text from the last dot of the last path component,
  unless that component has nothing but dots before it.
\<close>

definition splitext_ext :: "string \<Rightarrow> string" where
  "splitext_ext p =
     (let base = rev (takeWhile (\<lambda>c. c \<noteq> CHR ''/'') (rev p));
          ext = rev (takeWhile (\<lambda>c. c \<noteq> CHR ''.'') (rev base));
          stem = take (length base - length ext - 1) base
      in if CHR ''.'' \<in> set base \<and> (\<exists>c \<in> set stem. c \<noteq> CHR ''.'') then CHR ''.'' # ext else [])"

text \<open>
  \<open>str.lower\<close>, on the ASCII letters: no other letter has a lower case among the
  characters of the extensions that the result is compared with.
\<close>

definition lower_char :: "char \<Rightarrow> char" where
  "lower_char c =
     (let n = (of_char c :: nat) in if 65 \<le> n \<and> n \<le> 90 then char_of (n + 32) else c)"

definition lower :: "string \<Rightarrow> string" where
  "lower s = map lower_char s"

section \<open>Symbol extraction for JavaScript and TypeScript (parsing/javascript.py)\<close>

subsection \<open>The regular expressions of the fallback\<close>

text \<open>
  The patterns of \<open>_parse_javascript_with_regex\<close> are built from literal text, the
  greedy repetitions \<open>c*\<close> and \<open>c+\<close> of a character class \<open>c\<close> (\<open>\w\<close>, \<open>\s\<close> or the
  complement of one character), concatenation, alternation, one capturing group and a
  negative lookahead.  \<open>rmatch r s\<close> lists the ways \<open>r\<close> matches a prefix of \<open>s\<close>, in the
  order a backtracking matcher tries them, each with the text of the group (if the group
  took part) and the rest of \<open>s\<close>.  The classes are those of ASCII text: the letters,
  the digits and the underscore for \<open>\w\<close>, the characters 9 to 13 and 28 to 32 for \<open>\s\<close>.
  On a \<open>str\<close> pattern Python also takes the letters, digits and spaces beyond ASCII into
  \<open>\w\<close> and \<open>\s\<close>; the model is that of the patterns on content that is ASCII.
\<close>

datatype cclass = Word | Space | Except char

fun in_class :: "cclass \<Rightarrow> char \<Rightarrow> bool" where
  "in_class Word c =
     (let n = (of_char c :: nat) in
      (97 \<le> n \<and> n \<le> 122) \<or> (65 \<le> n \<and> n \<le> 90) \<or> (48 \<le> n \<and> n \<le> 57) \<or> n = 95)"
| "in_class Space c =
     (let n = (of_char c :: nat) in (9 \<le> n \<and> n \<le> 13) \<or> (28 \<le> n \<and> n \<le> 32))"
| "in_class (Except x) c = (c \<noteq> x)"

datatype regex =
    Lit string
  | Star cclass
  | Plus cclass
  | Cat regex regex
  | Alt regex regex
  | Group regex
  | NotAhead regex

text \<open>The rests after a greedy repetition, the longest match first.\<close>

fun star_rests :: "cclass \<Rightarrow> string \<Rightarrow> string list" where
  "star_rests c [] = [[]]"
| "star_rests c (x # xs) = (if in_class c x then star_rests c xs @ [x # xs] else [x # xs])"

fun plus_rests :: "cclass \<Rightarrow> string \<Rightarrow> string list" where
  "plus_rests c [] = []"
| "plus_rests c (x # xs) = (if in_class c x then star_rests c xs else [])"

fun first_some :: "'a option \<Rightarrow> 'a option \<Rightarrow> 'a option" where
  "first_some (Some x) y = Some x"
| "first_some None y = y"

fun rmatch :: "regex \<Rightarrow> string \<Rightarrow> (string option \<times> string) list" where
  "rmatch (Lit l) s = (if take (length l) s = l then [(None, drop (length l) s)] else [])"
| "rmatch (Star c) s = map (\<lambda>rest. (None, rest)) (star_rests c s)"
| "rmatch (Plus c) s = map (\<lambda>rest. (None, rest)) (plus_rests c s)"
| "rmatch (Cat r1 r2) s =
     concat (map (\<lambda>(g1, s1). map (\<lambda>(g2, s2). (first_some g1 g2, s2)) (rmatch r2 s1))
                 (rmatch r1 s))"
| "rmatch (Alt r1 r2) s = rmatch r1 s @ rmatch r2 s"
| "rmatch (Group r) s =
     map (\<lambda>(g, rest). (Some (take (length s - length rest) s), rest)) (rmatch r s)"
| "rmatch (NotAhead r) s = (if rmatch r s = [] then [(None, s)] else [])"

fun cat :: "regex list \<Rightarrow> regex" where
  "cat [] = Lit []"
| "cat [r] = r"
| "cat (r # rs) = Cat r (cat rs)"

text \<open>
  \<open>re.search\<close>: the first match at the leftmost position that has one; the group's
  text and the text after the match.
\<close>

fun search :: "regex \<Rightarrow> string \<Rightarrow> (string option \<times> string) option" where
  "search r [] = (case rmatch r [] of [] \<Rightarrow> None | m # ms \<Rightarrow> Some m)"
| "search r (x # xs) = (case rmatch r (x # xs) of [] \<Rightarrow> search r xs | m # ms \<Rightarrow> Some m)"

text \<open>
  \<open>re.finditer\<close>: the matches from left to right, each search starting where the last
  match ended (one character further after an empty match; no pattern of this module
  matches the empty string).  A match is given as its text, its group and the rest.
\<close>

function finditer :: "regex \<Rightarrow> string \<Rightarrow> (string \<times> string option \<times> string) list" where
  "finditer r s =
     (case rmatch r s of
        [] \<Rightarrow> (case s of [] \<Rightarrow> [] | x # xs \<Rightarrow> finditer r xs)
      | (g, rest) # ms \<Rightarrow>
          (take (length s - length rest) s, g, rest)
          # (if length rest < length s then finditer r rest
             else (case s of [] \<Rightarrow> [] | x # xs \<Rightarrow> finditer r xs)))"
  by pat_completeness auto
termination
  by (relation "measure (\<lambda>(r, s). length s)") auto

text \<open>\<open>re.findall\<close> on a pattern with one group: the group of each match.\<close>

definition findall :: "regex \<Rightarrow> string \<Rightarrow> string list" where
  "findall r s =
     map (\<lambda>(text, g, rest). case g of Some t \<Rightarrow> t | None \<Rightarrow> text) (finditer r s)"

text \<open>\<open>s[:s.find(sub)]\<close> when \<open>sub\<close> occurs in \<open>s\<close>, and \<open>s\<close> when it does not.\<close>

fun before_first :: "string \<Rightarrow> string \<Rightarrow> string" where
  "before_first sub [] = []"
| "before_first sub (x # xs) =
     (if take (length sub) (x # xs) = sub then [] else x # before_first sub xs)"

subsection \<open>The patterns\<close>

definition class_pattern :: regex where
  "class_pattern = cat [Lit ''class'', Plus Space, Group (Plus Word)]"

definition class_pattern_full :: "string \<Rightarrow> regex" where
  "class_pattern_full class_name =
     cat [Lit ''class'', Plus Space, Lit class_name, Star Space, Lit ''{'']"

definition method_patterns :: "regex list" where
  "method_patterns =
     [cat [Group (Plus Word), Star Space, Lit ''('', Star (Except CHR '')''), Lit '')'',
           Star Space, Lit ''{''],
      cat [Group (Plus Word), Star Space, Lit ''='', Star Space, Lit ''('',
           Star (Except CHR '')''), Lit '')'', Star Space, Lit ''=>''],
      cat [Group (Plus Word), Star Space, Lit ''='', Star Space, Lit ''async'', Star Space,
           Lit ''('', Star (Except CHR '')''), Lit '')'', Star Space, Lit ''=>'']]"

definition function_value :: regex where
  "function_value =
     Alt (Lit ''function'') (Alt (Lit ''('') (cat [Lit ''async'', Plus Space, Lit ''function'']))"

definition declared_function :: "string \<Rightarrow> regex" where
  "declared_function keyword =
     cat [Lit keyword, Plus Space, Group (Plus Word), Star Space, Lit ''='', Star Space,
          function_value]"

definition function_patterns :: "regex list" where
  "function_patterns =
     [cat [Lit ''function'', Plus Space, Group (Plus Word), Star Space, Lit ''(''],
      declared_function ''const'',
      declared_function ''let'',
      declared_function ''var'',
      cat [Lit ''async'', Plus Space, Lit ''function'', Plus Space, Group (Plus Word),
           Star Space, Lit ''('']]"

definition declared_global :: "string \<Rightarrow> regex" where
  "declared_global keyword =
     cat [Lit keyword, Plus Space, Group (Plus Word), Star Space, Lit ''='', Star Space,
          NotAhead (Alt (Lit ''function'') (Alt (Lit ''('') (Lit ''async'')))]"

definition global_patterns :: "regex list" where
  "global_patterns =
     [cat [Lit ''window.'', Group (Plus Word), Star Space, Lit ''=''],
      declared_global ''const'',
      declared_global ''let'',
      declared_global ''var'']"

definition module_exports_pattern :: regex where
  "module_exports_pattern =
     cat [Lit ''module.exports'', Star Space, Lit ''='', Star Space, Lit ''{'',
          Group (Plus (Except CHR ''}'')), Lit ''}'']"

definition export_pattern :: regex where
  "export_pattern = cat [Group (Plus Word), Star Space, Lit '':'']"

subsection \<open>The extractor\<close>

text \<open>
  The methods of one class: for every match of the class head, the text from the end of
  the match to the next \<open>class \<close> (or to the end of the file) is searched with the three
  method patterns.
\<close>

definition class_methods :: "string \<Rightarrow> string \<Rightarrow> string list" where
  "class_methods content class_name =
     concat (map (\<lambda>(text, g, rest).
                    concat (map (\<lambda>pattern. findall pattern (before_first ''class '' rest))
                                method_patterns))
                 (finditer (class_pattern_full class_name) content))"

text \<open>
  The exported keys of \<open>module.exports = {...}\<close>, which the source adds to its local set
  \<open>functions\<close>.
\<close>

definition exported_keys :: "string \<Rightarrow> string list" where
  "exported_keys content =
     (case search module_exports_pattern content of
        None \<Rightarrow> []
      | Some (g, rest) \<Rightarrow>
          (case g of None \<Rightarrow> [] | Some exports_content \<Rightarrow> findall export_pattern exports_content))"

text \<open>
  The body of \<open>_parse_javascript_with_regex\<close>, statement by statement.
  \<open>symbols["functions"].update(functions)\<close> copies the members that \<open>functions\<close> has at
  that point into the set of the result; the later \<open>functions.update(exported)\<close> changes
  the local set \<open>functions\<close> only, and \<open>symbols\<close> is what the function returns.
\<close>

definition parse_javascript_content :: "string \<Rightarrow> symbols" where
  "parse_javascript_content content =
     (let classes_found = findall class_pattern content;
          symbols_classes = set classes_found;
          functions1 = set (concat (map (class_methods content) (remdups classes_found)));
          functions2 = functions1
                       \<union> set (concat (map (\<lambda>pattern. findall pattern content) function_patterns));
          symbols_functions = functions2;
          globals_set = set (concat (map (\<lambda>pattern. findall pattern content) global_patterns));
          functions3 = functions2 \<union> set (exported_keys content);
          symbols_globals = globals_set
      in \<lparr> classes = symbols_classes, functions = symbols_functions, globals = symbols_globals \<rparr>)"

definition parse_javascript_with_regex :: "parser_env \<Rightarrow> string \<Rightarrow> string + symbols" where
  "parse_javascript_with_regex env file_path =
     (case read_text env file_path of
        Inl e \<Rightarrow> Inl (''Failed to parse '' @ file_path @ '': '' @ e)
      | Inr content \<Rightarrow> Inr (parse_javascript_content content))"

text \<open>
  \<open>_parse_with_treesitter\<close> returns \<open>None\<close> on every path (\<open>_init_treesitter_parser\<close>
  returns \<open>None\<close> whether or not the import succeeds), so \<open>extract_javascript_symbols\<close>
  always falls back to the regular expressions.  The import of \<open>tree_sitter\<close> is taken
  to succeed or to fail with \<open>ImportError\<close>, as it does for a package that is installed
  whole or not at all.
\<close>

definition parse_with_treesitter :: "string \<Rightarrow> string \<Rightarrow> symbols option" where
  "parse_with_treesitter file_path language = None"

definition language_of :: "string \<Rightarrow> string" where
  "language_of ext =
     (if ext = ''.js'' \<or> ext = ''.jsx'' then ''javascript''
      else if ext = ''.ts'' then ''typescript''
      else if ext = ''.tsx'' then ''tsx''
      else ''javascript'')"

definition extract_javascript_symbols :: "parser_env \<Rightarrow> string \<Rightarrow> string + symbols" where
  "extract_javascript_symbols env file_path =
     (case parse_with_treesitter file_path (language_of (lower (splitext_ext file_path))) of
        Some result \<Rightarrow> Inr result
      | None \<Rightarrow> parse_javascript_with_regex env file_path)"

section \<open>The file system (os.walk)\<close>

text \<open>
  A directory tree, with the entries of a directory in the order \<open>os.scandir\<close> lists
  them: a file; a directory; a symbolic link to a directory (\<open>Link\<close>, with the entries
  of the directory it points to); a directory that cannot be listed (\<open>Unreadable\<close>, with
  the entries it holds).  \<open>os.walk\<close> yields a directory with the names of its files and
  then walks its subdirectories.  It lists a link to a directory and an unreadable
  directory among the subdirectories, but yields nothing below them: links are not
  followed (\<open>followlinks=False\<close>) and the error of \<open>os.scandir\<close> is ignored
  (\<open>onerror=None\<close>).  The caller prunes the list of subdirectories in place
  (\<open>dirs[:] = [d for d in dirs if d not in {...}]\<close>), which is the predicate \<open>keep\<close> here.
  A directory is given by the path components that lead to it from the top.
\<close>

datatype fs_entry =
    File string
  | Dir string "fs_entry list"
  | Link string "fs_entry list"
  | Unreadable string "fs_entry list"

fun file_names :: "fs_entry list \<Rightarrow> string list" where
  "file_names [] = []"
| "file_names (File f # es) = f # file_names es"
| "file_names (Dir d sub # es) = file_names es"
| "file_names (Link d sub # es) = file_names es"
| "file_names (Unreadable d sub # es) = file_names es"

fun os_walk :: "(string \<Rightarrow> bool) \<Rightarrow> string list \<Rightarrow> fs_entry list \<Rightarrow> (string list \<times> string list) list"
  and walk_dirs :: "(string \<Rightarrow> bool) \<Rightarrow> string list \<Rightarrow> fs_entry list \<Rightarrow> (string list \<times> string list) list"
where
  "os_walk keep segs entries = (segs, file_names entries) # walk_dirs keep segs entries"
| "walk_dirs keep segs [] = []"
| "walk_dirs keep segs (File f # es) = walk_dirs keep segs es"
| "walk_dirs keep segs (Dir d sub # es) =
     (if keep d then os_walk keep (segs @ [d]) sub else []) @ walk_dirs keep segs es"
| "walk_dirs keep segs (Link d sub # es) = walk_dirs keep segs es"
| "walk_dirs keep segs (Unreadable d sub # es) = walk_dirs keep segs es"

text \<open>
  What the checks see of the world: \<open>os.path.exists\<close>, the tree below a directory
  (empty when there is no such directory), the components of \<open>os.path.abspath(p)\<close> split
  at the separator (the first one is the empty string before the leading separator),
  and the two library calls of the parsers.
\<close>

record environment = parser_env +
  path_exists :: "string \<Rightarrow> bool"
  listing :: "string \<Rightarrow> fs_entry list"
  abspath_parts :: "string \<Rightarrow> string list"

text \<open>
  An exception that leaves a function.  \<open>os.walk(root_dir)\<close> raises one for a path that
  holds a NUL character: \<open>os.scandir\<close> refuses it with \<open>ValueError\<close>, which is no
  \<open>OSError\<close> and so is not ignored.  (\<open>os.path.exists\<close> returns \<open>False\<close> for such a
  path.)
\<close>

datatype raised = ValueError string

definition walk_root ::
  "'a environment_scheme \<Rightarrow> (string \<Rightarrow> bool) \<Rightarrow> string
     \<Rightarrow> raised + (string list \<times> string list) list" where
  "walk_root env keep root_dir =
     (if CHR 0x00 \<in> set root_dir then Inl (ValueError ''embedded null byte'')
      else Inr (os_walk keep [] (listing env root_dir)))"

section \<open>Code inventory check (validation.py, validate_code_inventory)\<close>

definition code_extensions :: "string set" where
  "code_extensions = {''.py'', ''.js'', ''.jsx'', ''.ts'', ''.tsx''}"

definition excluded_dirs :: "string set" where
  "excluded_dirs = {''.git'', ''__pycache__'', ''node_modules'', ''.venv'', ''venv'', ''examples''}"

text \<open>
  The end of the \<open>try\<close> block: the symbols missing from the extracted ones, or the
  \<open>ValueError\<close> of the extractor turned into an error of the list.
\<close>

definition symbol_errors ::
  "string \<Rightarrow> string \<Rightarrow> string list \<Rightarrow> string + symbols \<Rightarrow> verror list" where
  "symbol_errors impl_id file_path required_symbols extracted =
     (case extracted of
        Inl e \<Rightarrow> [ExtractionFailed impl_id file_path e]
      | Inr actual_symbols \<Rightarrow>
          (let all_actual = classes actual_symbols \<union> functions actual_symbols
                            \<union> globals actual_symbols;
               missing = sort (remdups (filter (\<lambda>x. x \<notin> all_actual) required_symbols))
           in if missing \<noteq> [] then [MissingSymbols impl_id file_path missing] else []))"

text \<open>
  The choice of the extractor by the extension, inside the \<open>try\<close> block: \<open>None\<close> is
  the \<open>else\<close> branch, where a file of unknown type is skipped; \<open>Inl\<close> is the
  \<open>ValueError\<close> of the extractor.
\<close>

definition extract_symbols_for :: "parser_env \<Rightarrow> string \<Rightarrow> string \<Rightarrow> (string + symbols) option" where
  "extract_symbols_for env ext full_path =
     (if ext = ''.py'' then Some (extract_python_symbols env full_path)
      else if ext \<in> {''.js'', ''.jsx'', ''.ts'', ''.tsx''}
        then Some (extract_javascript_symbols env full_path)
      else None)"

text \<open>The body of the top-down loop, for one declared code file.\<close>

definition check_code_file ::
  "'a environment_scheme \<Rightarrow> string \<Rightarrow> implementation \<Rightarrow> string \<Rightarrow> verror list" where
  "check_code_file env root_dir impl file_path =
     (let full_path = path_join root_dir file_path in
      if \<not> path_exists env full_path then [MissingCodeFile (id_tag impl) file_path]
      else
        (case map_of (must_define impl) file_path of
           None \<Rightarrow> []
         | Some required_symbols \<Rightarrow>
             (case extract_symbols_for (parser_env.truncate env) (lower (splitext_ext file_path))
                     full_path of
                None \<Rightarrow> []
              | Some extracted \<Rightarrow>
                  symbol_errors (id_tag impl) file_path required_symbols extracted)))"

text \<open>
  The body of the bottom-up loop, for one file that \<open>os.walk\<close> yields in the directory
  with the components \<open>segs\<close> below the root.  \<open>rel_path\<close> is the path of the file
  relative to the root: the components joined by the separator.  \<open>path_parts\<close> splits it
  again and \<open>abs_path_parts\<close> splits the absolute path, which is the absolute path of the
  root followed by the same components; the names of directory entries hold no separator,
  so the parts are the components.
\<close>

definition scan_file ::
  "string set \<Rightarrow> string set \<Rightarrow> string list \<Rightarrow> string list \<Rightarrow> string \<Rightarrow> verror list" where
  "scan_file declared_files declared_test_files root_parts segs file =
     (let ext = lower (splitext_ext file) in
      if ext \<in> code_extensions then
        (let rel_path = join ''/'' (segs @ [file]);
             path_parts = segs @ [file];
             abs_path_parts = root_parts @ segs @ [file]
         in if ''examples'' \<in> set path_parts \<or> ''examples'' \<in> set abs_path_parts
               \<or> take 9 rel_path = ''examples/''
            then []
            else if rel_path \<notin> declared_files \<and> rel_path \<notin> declared_test_files
            then [UndeclaredCodeFile rel_path]
            else [])
      else [])"

text \<open>
  The two passes.  The sets of declared files are complete before the first pass (the
  first pass adds every code file to \<open>declared_files\<close> once more, which changes nothing).
  \<open>if goals:\<close> holds for a list that is neither \<open>None\<close> nor empty.
\<close>

definition declared_test_files :: "implementation list \<Rightarrow> goal list option \<Rightarrow> string set" where
  "declared_test_files impls goals_arg =
     set (concat (map test_files impls))
     \<union> (case goals_arg of
          None \<Rightarrow> {}
        | Some gs \<Rightarrow> if gs \<noteq> [] then set (map acceptance_test gs) else {})"

definition top_down :: "'a environment_scheme \<Rightarrow> implementation list \<Rightarrow> string \<Rightarrow> verror list" where
  "top_down env impls root_dir =
     concat (map (\<lambda>impl. concat (map (check_code_file env root_dir impl) (code_files impl)))
                 impls)"

definition bottom_up ::
  "string set \<Rightarrow> string set \<Rightarrow> string list \<Rightarrow> (string list \<times> string list) list \<Rightarrow> verror list"
where
  "bottom_up declared_files declared_tests root_parts walked =
     concat (map (\<lambda>(segs, files).
                    concat (map (scan_file declared_files declared_tests root_parts segs) files))
                 walked)"

text \<open>
  The whole check.  The first pass has run when \<open>os.walk\<close> is asked for its first
  directory; an exception of \<open>os.walk\<close> is outside every \<open>try\<close> block and leaves the
  function (\<open>Inl\<close>), otherwise the list of errors is returned (\<open>Inr\<close>).
\<close>

definition validate_code_inventory ::
  "'a environment_scheme \<Rightarrow> implementation list \<Rightarrow> goal list option \<Rightarrow> string
     \<Rightarrow> raised + verror list"
where
  "validate_code_inventory env impls goals_arg root_dir =
     (let declared_files = set (concat (map code_files impls));
          declared_tests = declared_test_files impls goals_arg;
          errors = top_down env impls root_dir
      in case walk_root env (\<lambda>d. d \<notin> excluded_dirs) root_dir of
           Inl e \<Rightarrow> Inl e
         | Inr walked \<Rightarrow>
             Inr (errors @ bottom_up declared_files declared_tests
                             (abspath_parts env root_dir) walked))"

section \<open>Test inventory check (validation.py, validate_test_inventory)\<close>

definition validate_test_inventory ::
  "'a environment_scheme \<Rightarrow> goal list \<Rightarrow> implementation list \<Rightarrow> string \<Rightarrow> verror list" where
  "validate_test_inventory env gs impls root_dir =
     concat (map (\<lambda>goal.
                    if \<not> path_exists env (path_join root_dir (acceptance_test goal))
                    then [MissingAcceptanceTest (id_tag goal) (acceptance_test goal)] else [])
                 gs)
     @ concat (map (\<lambda>impl.
                      concat (map (\<lambda>test_file.
                                     if \<not> path_exists env (path_join root_dir test_file)
                                     then [MissingTestFile (id_tag impl) test_file] else [])
                                  (test_files impl)))
                   impls)"

section \<open>The full validation (architecture.py, Architecture.validate)\<close>

record architecture =
  goals :: "goal list"
  solutions :: "solution list"
  implementations :: "implementation list"

text \<open>
  The four checks in their fixed order, with the default root directory \<open>"."\<close>; an
  exception of a check leaves \<open>validate\<close> as well.  \<open>validate\<close> prints the errors and
  leaves the process with status 1 when there are any, and returns \<open>True\<close> otherwise.
\<close>

definition validation_errors ::
  "(string list \<Rightarrow> string list) \<Rightarrow> 'a environment_scheme \<Rightarrow> architecture
     \<Rightarrow> raised + verror list" where
  "validation_errors order env arch =
     (let errors1 = validate_traceability (implementations arch) (solutions arch) (goals arch);
          errors2 = validate_dependencies order (solutions arch)
      in case validate_code_inventory env (implementations arch) (Some (goals arch)) ''.'' of
           Inl e \<Rightarrow> Inl e
         | Inr errors3 \<Rightarrow>
             Inr (errors1 @ errors2 @ errors3
                  @ validate_test_inventory env (goals arch) (implementations arch) ''.''))"

datatype outcome = Raised raised | Exit1 "verror list" | Returned bool

definition validate ::
  "(string list \<Rightarrow> string list) \<Rightarrow> 'a environment_scheme \<Rightarrow> architecture \<Rightarrow> outcome"
where
  "validate order env arch =
     (case validation_errors order env arch of
        Inl e \<Rightarrow> Raised e
      | Inr errors \<Rightarrow> if errors \<noteq> [] then Exit1 errors else Returned True)"

section \<open>Files on disk\<close>

text \<open>
  The notions the properties of the bottom-up scan are stated with.  In a directory tree
  of a file system a name is not empty and holds no separator, and the names in one
  directory differ (\<open>wf_tree\<close>).  \<open>on_disk_files es\<close> lists the files below the entries
  \<open>es\<close>, each as the list of path components from the top.  \<open>tree_files keep es\<close> lists
  those that are below directories proper only, none of which \<open>keep\<close> rejects.
  \<open>walkable es segs\<close> says that the components \<open>segs\<close> lead from \<open>es\<close> down through
  directories proper: none of them is a symbolic link or an unreadable directory.
\<close>

definition valid_name :: "string \<Rightarrow> bool" where
  "valid_name s = (s \<noteq> [] \<and> CHR ''/'' \<notin> set s)"

fun entry_name :: "fs_entry \<Rightarrow> string" where
  "entry_name (File f) = f"
| "entry_name (Dir d sub) = d"
| "entry_name (Link d sub) = d"
| "entry_name (Unreadable d sub) = d"

fun wf_tree :: "fs_entry list \<Rightarrow> bool" where
  "wf_tree [] = True"
| "wf_tree (File f # es) = (valid_name f \<and> f \<notin> entry_name ` set es \<and> wf_tree es)"
| "wf_tree (Dir d sub # es) =
     (valid_name d \<and> d \<notin> entry_name ` set es \<and> wf_tree sub \<and> wf_tree es)"
| "wf_tree (Link d sub # es) =
     (valid_name d \<and> d \<notin> entry_name ` set es \<and> wf_tree sub \<and> wf_tree es)"
| "wf_tree (Unreadable d sub # es) =
     (valid_name d \<and> d \<notin> entry_name ` set es \<and> wf_tree sub \<and> wf_tree es)"

fun on_disk_files :: "fs_entry list \<Rightarrow> string list list" where
  "on_disk_files [] = []"
| "on_disk_files (File f # es) = [f] # on_disk_files es"
| "on_disk_files (Dir d sub # es) = map ((#) d) (on_disk_files sub) @ on_disk_files es"
| "on_disk_files (Link d sub # es) = map ((#) d) (on_disk_files sub) @ on_disk_files es"
| "on_disk_files (Unreadable d sub # es) = map ((#) d) (on_disk_files sub) @ on_disk_files es"

fun tree_files :: "(string \<Rightarrow> bool) \<Rightarrow> fs_entry list \<Rightarrow> string list list" where
  "tree_files keep [] = []"
| "tree_files keep (File f # es) = [f] # tree_files keep es"
| "tree_files keep (Dir d sub # es) =
     (if keep d then map ((#) d) (tree_files keep sub) else []) @ tree_files keep es"
| "tree_files keep (Link d sub # es) = tree_files keep es"
| "tree_files keep (Unreadable d sub # es) = tree_files keep es"

fun find_dir :: "fs_entry list \<Rightarrow> string \<Rightarrow> fs_entry list option" where
  "find_dir [] d = None"
| "find_dir (Dir d' sub # es) d = (if d' = d then Some sub else find_dir es d)"
| "find_dir (File f # es) d = find_dir es d"
| "find_dir (Link d' sub # es) d = find_dir es d"
| "find_dir (Unreadable d' sub # es) d = find_dir es d"

fun walkable :: "fs_entry list \<Rightarrow> string list \<Rightarrow> bool" where
  "walkable es [] = True"
| "walkable es (d # ds) = (case find_dir es d of None \<Rightarrow> False | Some sub \<Rightarrow> walkable sub ds)"

text \<open>
  For the proofs: the files below the subdirectories only, and the files that a walk
  yields.
\<close>

fun sub_files :: "(string \<Rightarrow> bool) \<Rightarrow> fs_entry list \<Rightarrow> string list list" where
  "sub_files keep [] = []"
| "sub_files keep (File f # es) = sub_files keep es"
| "sub_files keep (Dir d sub # es) =
     (if keep d then map ((#) d) (tree_files keep sub) else []) @ sub_files keep es"
| "sub_files keep (Link d sub # es) = sub_files keep es"
| "sub_files keep (Unreadable d sub # es) = sub_files keep es"

definition flat_walk :: "(string list \<times> string list) list \<Rightarrow> string list list" where
  "flat_walk w = concat (map (\<lambda>(segs, files). map (\<lambda>f. segs @ [f]) files) w)"

section \<open>Example architectures\<close>

definition ex_S1 :: solution where
  "ex_S1 = Solution_init ''S-1'' ''first'' None (Some [''S-2'']) None ''''"

definition ex_S2 :: solution where
  "ex_S2 = Solution_init ''S-2'' ''second'' None (Some [''S-1'']) None ''''"

definition ex_orphan :: solution where
  "ex_orphan = Solution_init ''S-1'' ''strategy'' (Some []) None None ''''"

definition ex_I1 :: implementation where
  "ex_I1 = Implementation_init ''I-1'' ''one'' ex_orphan (Some [''a.py'']) None None ''''"

definition ex_I2 :: implementation where
  "ex_I2 = Implementation_init ''I-2'' ''two'' ex_orphan (Some [''b.py'']) None None ''''"

definition ex_A :: solution where
  "ex_A = Solution_init ''A'' ''entry'' None (Some [''B'']) None ''''"

definition ex_B :: solution where
  "ex_B = Solution_init ''B'' ''left'' None (Some [''C'']) None ''''"

definition ex_C :: solution where
  "ex_C = Solution_init ''C'' ''right'' None (Some [''B'']) None ''''"

definition ex_nested :: "stmt list" where
  "ex_nested = [Compound [FunctionDef ''f'' [Assign [Name ''x'']]]]"

definition ex_exports :: string where
  "ex_exports = ''module.exports = {foo: 1};''"

definition ex_goal :: goal where
  "ex_goal = Goal_init ''G-1'' ''feature'' ''tests/uat/test_example.py'' ''''"

definition ex_X1 :: solution where
  "ex_X1 = Solution_init ''S-1'' ''first'' (Some [ex_goal]) (Some [''S-2'']) None ''''"

definition ex_X2 :: solution where
  "ex_X2 = Solution_init ''S-2'' ''second'' (Some [ex_goal]) (Some [''S-1'']) None ''''"

definition ex_J1 :: implementation where
  "ex_J1 = Implementation_init ''I-1'' ''one'' ex_X1 (Some [''src/a.py''])
             None (Some [(''src/a.py'', [''f''])]) ''''"

definition ex_J2 :: implementation where
  "ex_J2 = Implementation_init ''I-2'' ''two'' ex_X2 (Some [''src/b.py'']) None None ''''"

definition ex_cyclic :: architecture where
  "ex_cyclic = \<lparr> goals = [ex_goal], solutions = [ex_X1, ex_X2], implementations = [ex_J1, ex_J2] \<rparr>"

text \<open>
  A project directory with the files of \<open>ex_cyclic\<close>; \<open>src/a.py\<close> defines \<open>f\<close>.  In
  \<open>ex_broken\<close> the parser rejects the same file.
\<close>

definition ex_env :: environment where
  "ex_env =
     \<lparr> read_text = (\<lambda>p. if p = ''./src/a.py'' then Inr ''def f(): pass'' else Inl ''No such file''),
       ast_parse = (\<lambda>c. if c = ''def f(): pass'' then Inr [FunctionDef ''f'' [Simple]]
                         else Inl (SyntaxError ''invalid syntax'')),
       path_exists = (\<lambda>p. p \<in> {''./src/a.py'', ''./src/b.py'', ''./tests/uat/test_example.py''}),
       listing = (\<lambda>d. if d = ''.'' then
                    [Dir ''src'' [File ''a.py'', File ''b.py''],
                     Dir ''tests'' [Dir ''uat'' [File ''test_example.py'']]]
                  else []),
       abspath_parts = (\<lambda>p. ['''', ''home'', ''dev'', ''project'']) \<rparr>"

definition ex_broken :: environment where
  "ex_broken = ex_env \<lparr> read_text := (\<lambda>p. if p = ''./src/a.py'' then Inr ''def f(:'' else Inl ''No such file'') \<rparr>"

text \<open>The same project, checked out below a directory called \<open>examples\<close>.\<close>

definition ex_demo :: environment where
  "ex_demo = ex_env \<lparr> abspath_parts := (\<lambda>p. ['''', ''home'', ''dev'', ''examples'', ''demo'']) \<rparr>"


text \<open>
  The same project with a version-control directory, a link to a directory of library
  code and a directory that cannot be listed.
\<close>

definition ex_wide :: environment where
  "ex_wide = ex_env \<lparr> listing := (\<lambda>d. if d = ''.'' then
                    [Dir ''src'' [File ''a.py'', File ''b.py''],
                     Dir ''.git'' [File ''hook.py''],
                     Link ''vendor'' [File ''lib.py''],
                     Unreadable ''private'' [File ''key.py''],
                     Dir ''tests'' [Dir ''uat'' [File ''test_example.py'']]]
                  else []) \<rparr>"

text \<open>A Goal that names its acceptance test with a leading \<open>./\<close>.\<close>

definition ex_goal_dot :: goal where
  "ex_goal_dot = Goal_init ''G-1'' ''feature'' ''./tests/uat/test_example.py'' ''''"

text \<open>An Implementation with a script that exists and cannot be read.\<close>

definition ex_JS :: implementation where
  "ex_JS = Implementation_init ''I-3'' ''three'' ex_X1 (Some [''src/w.js''])
             None (Some [(''src/w.js'', [''run''])]) ''''"

definition ex_locked :: environment where
  "ex_locked = ex_env \<lparr> read_text := (\<lambda>p. Inl ''Permission denied''),
                         path_exists := (\<lambda>p. p = ''./src/w.js'') \<rparr>"

text \<open>
  The file system of \<open>ex_env\<close>, asked about the path that \<open>os.path.join\<close> makes of the
  root \<open>.\<close> and the acceptance test of \<open>ex_goal_dot\<close>: the same file.
\<close>

definition ex_dot :: environment where
  "ex_dot = ex_env \<lparr> path_exists := (\<lambda>p. p \<in> {''./src/a.py'', ''./src/b.py'',
                         ''./tests/uat/test_example.py'', ''././tests/uat/test_example.py''}) \<rparr>"

lemmas init_defs = Solution_init_def Implementation_init_def Goal_init_def or_default_def

section \<open>Properties of the graph model\<close>

text \<open>
  C10.  After construction the list attributes of a Solution (\<open>satisfies\<close>, \<open>requires\<close>,
  \<open>constraints\<close>) and of an Implementation (\<open>code_files\<close>, \<open>test_files\<close>, \<open>must_define\<close>)
  are lists or dicts, never \<open>None\<close>: an argument that is \<open>None\<close> or omitted gives the
  empty list or dict, any other argument is kept as it is.
\<close>

theorem constructor_defaults:
  "satisfies (Solution_init i n sat req con d) = (case sat of None \<Rightarrow> [] | Some xs \<Rightarrow> xs)
   \<and> requires (Solution_init i n sat req con d) = (case req of None \<Rightarrow> [] | Some xs \<Rightarrow> xs)
   \<and> constraints (Solution_init i n sat req con d) = (case con of None \<Rightarrow> [] | Some xs \<Rightarrow> xs)
   \<and> code_files (Implementation_init i' n' sol cf tf md d') = (case cf of None \<Rightarrow> [] | Some xs \<Rightarrow> xs)
   \<and> test_files (Implementation_init i' n' sol cf tf md d') = (case tf of None \<Rightarrow> [] | Some xs \<Rightarrow> xs)
   \<and> must_define (Implementation_init i' n' sol cf tf md d') = (case md of None \<Rightarrow> [] | Some xs \<Rightarrow> xs)"
  by (simp add: Solution_init_def Implementation_init_def or_default_def split: option.splits)

section \<open>Properties of the dependency check\<close>

lemma solution_map_two:
  "solution_map [A, B] k =
     (if k = id_tag B then Some B else if k = id_tag A then Some A else None)"
  by (simp add: solution_map_def)

lemma sublist_prepend: "sublist x ys \<Longrightarrow> sublist x (ps @ ys)"
  by (metis append_Nil2 sublist_appendI sublist_order.order_trans)

lemma sublist_join: "z \<in> set xs \<Longrightarrow> sublist z (join sep xs)"
proof (induction sep xs rule: join.induct)
  case (1 sep)
  then show ?case by simp
next
  case (2 sep x)
  then show ?case by simp
next
  case (3 sep x y ys)
  show ?case
  proof (cases "z = x")
    case True
    have "sublist x ([] @ x @ (sep @ join sep (y # ys)))" by (rule sublist_appendI)
    with True show ?thesis by simp
  next
    case False
    with 3 have "sublist z (join sep (y # ys))" by simp
    then have "sublist z ((x @ sep) @ join sep (y # ys))" by (rule sublist_prepend)
    then show ?thesis by simp
  qed
qed

lemma sublist_message_cycle:
  "x \<in> set cycle \<Longrightarrow> sublist x (message (CircularDependency cycle))"
  unfolding message.simps by (intro sublist_prepend sublist_join)

lemma two_cycle_dependencies:
  assumes "set_iteration order" "requires A = [id_tag B]" "requires B = [id_tag A]"
  shows "\<exists>cycle. validate_dependencies order [A, B] = [CircularDependency cycle]
            \<and> id_tag A \<in> set cycle \<and> id_tag B \<in> set cycle"
proof (cases "id_tag A = id_tag B")
  case True
  with assms(2,3) show ?thesis
    by (simp add: validate_dependencies_def solution_map_two)
next
  case False
  from assms(1) False have "set (order [id_tag A, id_tag B]) = {id_tag A, id_tag B}"
    by (simp add: set_iteration_def)
  with False assms(2,3) show ?thesis
    by (simp add: validate_dependencies_def solution_map_two)
qed

lemma solution_map_three:
  "solution_map [A, B, C] k =
     (if k = id_tag C then Some C else if k = id_tag B then Some B
      else if k = id_tag A then Some A else None)"
  by (simp add: solution_map_def)

text \<open>
  C1.  The report of a cycle is \<open>list(path) + [start_id]\<close>: all the ids of the current
  DFS path, in the iteration order of the set \<open>path\<close>, and then the revisited id.  With
  A requiring B, B requiring C and C requiring B, the path from the revisited node B back
  to itself is B, C, B; the check reports a sequence of four ids that holds A, whatever
  the iteration order of the set.
\<close>

theorem cycle_report_holds_whole_path:
  assumes "set_iteration order"
  shows "\<exists>cycle. validate_dependencies order [ex_A, ex_B, ex_C] = [CircularDependency cycle]
           \<and> ''A'' \<in> set cycle \<and> cycle \<noteq> [''B'', ''C'', ''B'']"
proof -
  have "distinct [''A'', ''B'', ''C'']" by simp
  with assms have "set (order [''A'', ''B'', ''C'']) = set [''A'', ''B'', ''C'']"
    unfolding set_iteration_def by blast
  then have mem: "''A'' \<in> set (order [''A'', ''B'', ''C''])" by simp
  have ne: "order [''A'', ''B'', ''C''] @ [''B''] \<noteq> [''B'', ''C'', ''B'']"
  proof
    assume "order [''A'', ''B'', ''C''] @ [''B''] = [''B'', ''C'', ''B'']"
    then have "order [''A'', ''B'', ''C''] = [''B'', ''C'']" by simp
    with mem have "''A'' \<in> set [''B'', ''C'']" by simp
    then show False by simp
  qed
  have "validate_dependencies order [ex_A, ex_B, ex_C]
      = [CircularDependency (order [''A'', ''B'', ''C''] @ [''B''])]"
    by (simp add: validate_dependencies_def solution_map_three ex_A_def ex_B_def ex_C_def init_defs)
  with mem ne show ?thesis by simp
qed

theorem cycle_report_holds_whole_path_witness:
  "set_iteration (\<lambda>xs. xs)
   \<and> validate_dependencies (\<lambda>xs. xs) [ex_A, ex_B, ex_C]
       = [CircularDependency [''A'', ''B'', ''C'', ''B'']]"
proof -
  have h: "set_iteration (\<lambda>xs. xs)" by (simp add: set_iteration_def)
  have "validate_dependencies (\<lambda>xs. xs) [ex_A, ex_B, ex_C]
      = [CircularDependency [''A'', ''B'', ''C'', ''B'']]"
    by (simp add: validate_dependencies_def solution_map_three ex_A_def ex_B_def ex_C_def init_defs)
  with h cycle_report_holds_whole_path[OF h] show ?thesis by simp
qed


lemma set_iteration_insertion: "set_iteration (\<lambda>xs. xs)"
  by (simp add: set_iteration_def)

text \<open>
  C6.  Two Solutions A and B with \<open>A.requires = [B]\<close> and \<open>B.requires = [A]\<close>: the
  dependency check returns exactly one error, a circular-dependency error whose text
  contains the id of A and the id of B, whether the input list is \<open>[A, B]\<close> or \<open>[B, A]\<close>
  (and whatever the iteration order of the path set).
\<close>

theorem two_cycle_one_error:
  assumes "set_iteration order" "requires A = [id_tag B]" "requires B = [id_tag A]"
  shows "(\<exists>cycle. validate_dependencies order [A, B] = [CircularDependency cycle]
            \<and> sublist (id_tag A) (message (CircularDependency cycle))
            \<and> sublist (id_tag B) (message (CircularDependency cycle)))
       \<and> (\<exists>cycle. validate_dependencies order [B, A] = [CircularDependency cycle]
            \<and> sublist (id_tag A) (message (CircularDependency cycle))
            \<and> sublist (id_tag B) (message (CircularDependency cycle)))"
proof
  from two_cycle_dependencies[OF assms]
  show "\<exists>cycle. validate_dependencies order [A, B] = [CircularDependency cycle]
            \<and> sublist (id_tag A) (message (CircularDependency cycle))
            \<and> sublist (id_tag B) (message (CircularDependency cycle))"
    by (blast intro: sublist_message_cycle)
  from two_cycle_dependencies[OF assms(1) assms(3) assms(2)]
  show "\<exists>cycle. validate_dependencies order [B, A] = [CircularDependency cycle]
            \<and> sublist (id_tag A) (message (CircularDependency cycle))
            \<and> sublist (id_tag B) (message (CircularDependency cycle))"
    by (blast intro: sublist_message_cycle)
qed

theorem two_cycle_one_error_witness:
  "set_iteration (\<lambda>xs. xs) \<and> requires ex_S1 = [id_tag ex_S2] \<and> requires ex_S2 = [id_tag ex_S1]
   \<and> (\<exists>cycle. validate_dependencies (\<lambda>xs. xs) [ex_S1, ex_S2] = [CircularDependency cycle]
            \<and> sublist (id_tag ex_S1) (message (CircularDependency cycle))
            \<and> sublist (id_tag ex_S2) (message (CircularDependency cycle)))
   \<and> (\<exists>cycle. validate_dependencies (\<lambda>xs. xs) [ex_S2, ex_S1] = [CircularDependency cycle]
            \<and> sublist (id_tag ex_S1) (message (CircularDependency cycle))
            \<and> sublist (id_tag ex_S2) (message (CircularDependency cycle)))"
proof -
  have h1: "set_iteration (\<lambda>xs. xs)" by (rule set_iteration_insertion)
  have h2: "requires ex_S1 = [id_tag ex_S2]" by (simp add: ex_S1_def ex_S2_def init_defs)
  have h3: "requires ex_S2 = [id_tag ex_S1]" by (simp add: ex_S1_def ex_S2_def init_defs)
  from two_cycle_one_error[OF h1 h2 h3] h1 h2 h3 show ?thesis by blast
qed

section \<open>Properties of the traceability check\<close>

lemma solution_map_key: "solution_map sols k = Some s \<Longrightarrow> id_tag s = k"
  unfolding solution_map_def by (auto dest!: map_of_SomeD)

lemma count_list_app: "count_list (xs @ ys) a = count_list xs a + count_list ys a"
  by (induction xs) auto

lemma count_list_absent: "a \<notin> set xs \<Longrightarrow> count_list xs a = 0"
  by (induction xs) auto

lemma satisfies_errors_kind:
  "e \<in> set (satisfies_errors gmap sid gs) \<Longrightarrow> \<exists>g. e = SatisfiesMissing sid g"
  by (induction gs) (auto split: if_splits)

lemma trace_impl_orphaned_count:
  assumes "smap sid = Some S" "satisfies S = []" "\<forall>k s. smap k = Some s \<longrightarrow> id_tag s = k"
  shows "count_list (trace_impl smap gmap impl) (OrphanedSolution sid)
           = (if id_tag (implements impl) = sid then 1 else 0)"
proof (cases "smap (id_tag (implements impl))")
  case None
  with assms(1) show ?thesis by (auto simp: trace_impl_def)
next
  case (Some sol_obj)
  with assms(3) have key: "id_tag sol_obj = id_tag (implements impl)" by blast
  show ?thesis
  proof (cases "satisfies sol_obj = []")
    case True
    with Some key show ?thesis by (auto simp: trace_impl_def)
  next
    case False
    with assms(1,2) Some have ne: "id_tag (implements impl) \<noteq> sid" by auto
    have "OrphanedSolution sid \<notin> set (satisfies_errors gmap (id_tag sol_obj) (satisfies sol_obj))"
      by (auto dest: satisfies_errors_kind)
    with Some False ne show ?thesis by (simp add: trace_impl_def count_list_absent)
  qed
qed

lemma trace_impl_no_dangling:
  assumes "smap sid = Some S" "satisfies S = []" "\<forall>k s. smap k = Some s \<longrightarrow> id_tag s = k"
  shows "SatisfiesMissing sid g \<notin> set (trace_impl smap gmap impl)"
proof (cases "smap (id_tag (implements impl))")
  case None
  then show ?thesis by (simp add: trace_impl_def)
next
  case (Some sol_obj)
  show ?thesis
  proof (cases "satisfies sol_obj = []")
    case True
    with Some show ?thesis by (simp add: trace_impl_def)
  next
    case False
    with assms Some have "id_tag sol_obj \<noteq> sid" by auto
    with Some False show ?thesis
      by (auto simp: trace_impl_def dest: satisfies_errors_kind)
  qed
qed

lemma trace_all_orphaned_count:
  assumes "smap sid = Some S" "satisfies S = []" "\<forall>k s. smap k = Some s \<longrightarrow> id_tag s = k"
  shows "count_list (concat (map (trace_impl smap gmap) impls)) (OrphanedSolution sid)
           = length (filter (\<lambda>impl. id_tag (implements impl) = sid) impls)"
  by (induction impls) (simp_all add: count_list_app trace_impl_orphaned_count[OF assms])

text \<open>
  C2, as the code has it.  The check for an empty \<open>satisfies\<close> is made inside the loop
  over the Implementations, on the Solution that the Implementation's \<open>implements\<close> id
  resolves to.  So for a Solution S with empty \<open>satisfies\<close> (the one its id resolves to),
  the traceability check reports one orphaned-solution error for each Implementation that
  references S, none when no Implementation does, and never a dangling-Goal error for S.
\<close>

theorem orphaned_solution_per_implementation:
  assumes "solution_map sols sid = Some S" "satisfies S = []"
  shows "count_list (validate_traceability impls sols gs) (OrphanedSolution sid)
           = length (filter (\<lambda>impl. id_tag (implements impl) = sid) impls)
       \<and> (\<forall>goal_id. SatisfiesMissing sid goal_id
              \<notin> set (validate_traceability impls sols gs))"
proof -
  have key: "\<forall>k s. solution_map sols k = Some s \<longrightarrow> id_tag s = k"
    by (blast dest: solution_map_key)
  have "OrphanedSolution sid \<notin> set (orphaned_goals sols gs)"
       "OrphanedSolution sid \<notin> set (unimplemented_solutions impls sols)"
    by (auto simp: orphaned_goals_def unimplemented_solutions_def)
  then have "count_list (validate_traceability impls sols gs) (OrphanedSolution sid)
      = length (filter (\<lambda>impl. id_tag (implements impl) = sid) impls)"
    by (simp add: validate_traceability_def count_list_app count_list_absent
          trace_all_orphaned_count[OF assms key])
  moreover have "SatisfiesMissing sid goal_id
      \<notin> set (validate_traceability impls sols gs)" for goal_id
    using trace_impl_no_dangling[OF assms key]
    by (auto simp: validate_traceability_def orphaned_goals_def unimplemented_solutions_def)
  ultimately show ?thesis by blast
qed

theorem orphaned_solution_per_implementation_witness:
  "solution_map [ex_orphan] ''S-1'' = Some ex_orphan \<and> satisfies ex_orphan = []
   \<and> count_list (validate_traceability [ex_I1, ex_I2] [ex_orphan] []) (OrphanedSolution ''S-1'') = 2
   \<and> (\<forall>goal_id. SatisfiesMissing ''S-1'' goal_id
              \<notin> set (validate_traceability [ex_I1, ex_I2] [ex_orphan] []))"
proof -
  have h1: "solution_map [ex_orphan] ''S-1'' = Some ex_orphan"
    by (simp add: solution_map_def ex_orphan_def ex_I1_def ex_I2_def init_defs)
  have h2: "satisfies ex_orphan = []" by (simp add: ex_orphan_def ex_I1_def ex_I2_def init_defs)
  have "length (filter (\<lambda>impl. id_tag (implements impl) = ''S-1'') [ex_I1, ex_I2]) = 2"
    by (simp add: ex_orphan_def ex_I1_def ex_I2_def init_defs)
  with orphaned_solution_per_implementation[OF h1 h2, of "[ex_I1, ex_I2]" "[]"] h1 h2
  show ?thesis by simp
qed

theorem orphaned_solution_once_counterexample:
  "ex_orphan \<in> set [ex_orphan] \<and> satisfies ex_orphan = []
   \<and> count_list (validate_traceability [] [ex_orphan] []) (OrphanedSolution (id_tag ex_orphan)) = 0
   \<and> count_list (validate_traceability [ex_I1, ex_I2] [ex_orphan] [])
        (OrphanedSolution (id_tag ex_orphan)) = 2"
  by (simp add: validate_traceability_def trace_impl_def orphaned_goals_def
        unimplemented_solutions_def solution_map_def goal_map_def ex_orphan_def ex_I1_def ex_I2_def init_defs)

section \<open>Properties of the symbol extractors\<close>

text \<open>
  C4.  The function \<open>f\<close> is defined inside an \<open>if\<close> at the top of the module and assigns
  \<open>x\<close> in its body: the assignment is inside a function body, and \<open>x\<close> is in \<open>globals\<close>.
\<close>

theorem nested_function_local_in_globals:
  "globals (python_symbols ex_nested) = {''x''}"
  by (simp add: ex_nested_def python_symbols_def walk_module_def is_top_level_def)

text \<open>
  C3.  The file assigns the mapping literal \<open>{foo: 1}\<close> to \<open>module.exports\<close>.  The
  source finds the key \<open>foo\<close> and adds it to its local set, after the result's set of
  functions has been filled: \<open>foo\<close> is not in the \<open>functions\<close> that are returned.
\<close>

theorem exported_keys_not_returned:
  "exported_keys ex_exports = [''foo'']
   \<and> functions (parse_javascript_content ex_exports) = {}"
  by (simp add: ex_exports_def exported_keys_def findall_def module_exports_pattern_def
        export_pattern_def parse_javascript_content_def class_pattern_def
        function_patterns_def declared_function_def function_value_def Let_def)

section \<open>Lemmas on the code inventory check\<close>

lemma validate_code_inventory_returns:
  "CHR 0x00 \<notin> set root_dir \<Longrightarrow>
     validate_code_inventory env impls goals_arg root_dir
       = Inr (top_down env impls root_dir
              @ bottom_up (set (concat (map code_files impls))) (declared_test_files impls goals_arg)
                  (abspath_parts env root_dir)
                  (os_walk (\<lambda>d. d \<notin> excluded_dirs) [] (listing env root_dir)))"
  by (simp add: validate_code_inventory_def walk_root_def Let_def)

lemma symbol_errors_kind:
  "e \<in> set (symbol_errors i f req r) \<Longrightarrow>
     (\<exists>m. e = MissingSymbols i f m) \<or> (\<exists>msg. r = Inl msg \<and> e = ExtractionFailed i f msg)"
  by (auto simp: symbol_errors_def Let_def split: sum.splits if_splits)

lemma check_code_file_not_undeclared:
  "UndeclaredCodeFile r \<notin> set (check_code_file env root_dir impl f)"
  by (auto simp: check_code_file_def Let_def split: option.splits dest: symbol_errors_kind)

lemma top_down_not_undeclared: "UndeclaredCodeFile r \<notin> set (top_down env impls root_dir)"
  by (auto simp: top_down_def check_code_file_not_undeclared)

lemma scan_file_cases:
  "scan_file D T rp segs f = []
   \<or> (scan_file D T rp segs f = [UndeclaredCodeFile (join ''/'' (segs @ [f]))]
      \<and> lower (splitext_ext f) \<in> code_extensions
      \<and> ''examples'' \<notin> set (segs @ [f]) \<and> ''examples'' \<notin> set rp
      \<and> join ''/'' (segs @ [f]) \<notin> D \<and> join ''/'' (segs @ [f]) \<notin> T)"
  by (auto simp: scan_file_def Let_def)

lemma scan_file_reported:
  assumes "lower (splitext_ext f) \<in> code_extensions"
    and "''examples'' \<notin> set (segs @ [f])" "''examples'' \<notin> set rp"
    and "take 9 (join ''/'' (segs @ [f])) \<noteq> ''examples/''"
    and "join ''/'' (segs @ [f]) \<notin> D" "join ''/'' (segs @ [f]) \<notin> T"
  shows "scan_file D T rp segs f = [UndeclaredCodeFile (join ''/'' (segs @ [f]))]"
  using assms by (simp add: scan_file_def Let_def)

lemma count_list_distinct: "distinct xs \<Longrightarrow> x \<in> set xs \<Longrightarrow> count_list xs x = 1"
  by (induction xs) (auto simp: count_list_absent)

lemma flat_walk_simps [simp]:
  "flat_walk [] = []"
  "flat_walk ((segs, files) # w) = map (\<lambda>f. segs @ [f]) files @ flat_walk w"
  "flat_walk (u @ w) = flat_walk u @ flat_walk w"
  by (simp_all add: flat_walk_def)

lemma walk_counts:
  "count_list (flat_walk (os_walk keep pre es)) q
     = count_list (map ((@) pre) (tree_files keep es)) q"
  "count_list (flat_walk (walk_dirs keep pre es)) q
     = count_list (map ((@) pre) (sub_files keep es)) q"
proof (induction keep pre es and keep pre es rule: os_walk_walk_dirs.induct)
  case (1 keep segs entries)
  have "count_list (map ((@) segs) (tree_files keep entries)) q
      = count_list (map (\<lambda>f. segs @ [f]) (file_names entries)) q
        + count_list (map ((@) segs) (sub_files keep entries)) q"
    by (induction keep entries rule: tree_files.induct) (auto simp: count_list_app)
  with 1 show ?case by (simp add: count_list_app)
next
  case (2 keep segs)
  then show ?case by simp
next
  case (3 keep segs f es)
  then show ?case by simp
next
  case (4 keep segs d sub es)
  then show ?case by (simp add: count_list_app comp_def)
next
  case (5 keep segs d sub es)
  then show ?case by simp
next
  case (6 keep segs d sub es)
  then show ?case by simp
qed


lemma on_disk_head:
  "q \<in> set (on_disk_files es) \<Longrightarrow> q \<noteq> [] \<and> hd q \<in> entry_name ` set es"
  by (induction es rule: on_disk_files.induct) auto

lemma on_disk_valid:
  "wf_tree es \<Longrightarrow> q \<in> set (on_disk_files es) \<Longrightarrow> \<forall>s \<in> set q. valid_name s"
  by (induction es arbitrary: q rule: on_disk_files.induct) auto

lemma tree_files_on_disk:
  "q \<in> set (tree_files keep es) \<Longrightarrow> q \<in> set (on_disk_files es)"
  by (induction keep es arbitrary: q rule: tree_files.induct) (auto split: if_splits)

lemma tree_files_head:
  "q \<in> set (tree_files keep es) \<Longrightarrow> q \<noteq> [] \<and> hd q \<in> entry_name ` set es"
  by (blast dest: tree_files_on_disk on_disk_head)

lemma tree_files_valid:
  "wf_tree es \<Longrightarrow> q \<in> set (tree_files keep es) \<Longrightarrow> \<forall>s \<in> set q. valid_name s"
  by (blast dest: tree_files_on_disk on_disk_valid)

lemma tree_files_distinct: "wf_tree es \<Longrightarrow> distinct (tree_files keep es)"
proof (induction keep es rule: tree_files.induct)
  case (1 keep)
  then show ?case by simp
next
  case (2 keep f es)
  then show ?case by (auto dest: tree_files_head)
next
  case (3 keep d sub es)
  then have "keep d \<longrightarrow> distinct (tree_files keep sub)" "distinct (tree_files keep es)"
    by simp_all
  moreover have "d # t \<notin> set (tree_files keep es)" for t
    using 3(3) by (auto dest: tree_files_head)
  ultimately show ?case by (auto simp: distinct_map)
next
  case (4 keep d sub es)
  then show ?case by simp
next
  case (5 keep d sub es)
  then show ?case by simp
qed

lemma find_dir_name: "find_dir es d = Some sub \<Longrightarrow> d \<in> entry_name ` set es"
  by (induction es d rule: find_dir.induct) (auto split: if_splits)

lemma find_dir_other:
  "d \<notin> entry_name ` set es \<Longrightarrow> find_dir es d = None"
  using find_dir_name by (cases "find_dir es d") auto

text \<open>
  The files that the walk reaches are the files on disk below directories proper that
  the pruning keeps.
\<close>

lemma tree_files_iff:
  "wf_tree es \<Longrightarrow>
     q \<in> set (tree_files keep es)
       \<longleftrightarrow> q \<in> set (on_disk_files es) \<and> (\<forall>d \<in> set (butlast q). keep d) \<and> walkable es (butlast q)"
proof (induction es arbitrary: q rule: on_disk_files.induct)
  case 1
  then show ?case by simp
next
  case (2 f es)
  have other: "walkable (File f # es) ds = walkable es ds" for ds
    by (cases ds) simp_all
  from 2 show ?case by (auto simp: other)
next
  case (3 d sub es)
  have here: "walkable (Dir d sub # es) (butlast (d # t)) = walkable sub (butlast t)"
    if "t \<in> set (on_disk_files sub)" for t
    using that by (auto dest: on_disk_head)
  have there: "walkable (Dir d sub # es) (butlast q) = walkable es (butlast q)"
    if "q \<in> set (on_disk_files es)"
  proof (cases "butlast q")
    case Nil
    then show ?thesis by simp
  next
    case (Cons x xs)
    from Cons have "x = hd q" by (cases q) (auto split: if_splits)
    with that 3(3) have "x \<noteq> d" by (auto dest: on_disk_head)
    with Cons show ?thesis by simp
  qed
  have split: "q \<in> set (on_disk_files es) \<Longrightarrow> hd q \<noteq> d"
    using 3(3) by (auto dest: on_disk_head)
  show ?case
  proof (cases "q \<in> set (on_disk_files es)")
    case True
    then have "q \<notin> (#) d ` set (tree_files keep sub)" "q \<notin> (#) d ` set (on_disk_files sub)"
      using split by auto
    with True 3 there show ?thesis by (auto dest: tree_files_on_disk)
  next
    case False
    show ?thesis
    proof
      assume "q \<in> set (tree_files keep (Dir d sub # es))"
      with False obtain t where t: "keep d" "q = d # t" "t \<in> set (tree_files keep sub)"
        by (auto split: if_splits dest: tree_files_on_disk)
      with 3 have sub: "t \<in> set (on_disk_files sub)" "\<forall>x \<in> set (butlast t). keep x"
          "walkable sub (butlast t)"
        by auto
      then have "t \<noteq> []" by (auto dest: on_disk_head)
      with t sub here[OF sub(1)]
      show "q \<in> set (on_disk_files (Dir d sub # es)) \<and> (\<forall>d \<in> set (butlast q). keep d)
              \<and> walkable (Dir d sub # es) (butlast q)"
        by simp
    next
      assume a: "q \<in> set (on_disk_files (Dir d sub # es)) \<and> (\<forall>d \<in> set (butlast q). keep d)
              \<and> walkable (Dir d sub # es) (butlast q)"
      with False obtain t where t: "q = d # t" "t \<in> set (on_disk_files sub)" by auto
      then have ne: "t \<noteq> []" by (auto dest: on_disk_head)
      with a t have "keep d" "\<forall>x \<in> set (butlast t). keep x" by simp_all
      moreover from a t here[OF t(2)] have "walkable sub (butlast t)" by simp
      ultimately have "t \<in> set (tree_files keep sub)" using 3 t(2) by auto
      with \<open>keep d\<close> t show "q \<in> set (tree_files keep (Dir d sub # es))" by simp
    qed
  qed
next
  case (4 d sub es)
  have there: "walkable (Link d sub # es) ds = walkable es ds" for ds
    by (cases ds) simp_all
  have "\<not> walkable es (butlast (d # t))" if "t \<in> set (on_disk_files sub)" for t
    using that 4(3) by (auto dest: on_disk_head simp: find_dir_other)
  with 4 show ?case by (auto simp: there)
next
  case (5 d sub es)
  have there: "walkable (Unreadable d sub # es) ds = walkable es ds" for ds
    by (cases ds) simp_all
  have "\<not> walkable es (butlast (d # t))" if "t \<in> set (on_disk_files sub)" for t
    using that 5(3) by (auto dest: on_disk_head simp: find_dir_other)
  with 5 show ?case by (auto simp: there)
qed

lemma join_Cons: "join sep (x # xs) = x @ (if xs = [] then [] else sep @ join sep xs)"
  by (cases xs) simp_all

lemma takeWhile_valid:
  "valid_name s \<Longrightarrow> takeWhile (\<lambda>c. c \<noteq> CHR ''/'') (s @ CHR ''/'' # t) = s"
  by (subst takeWhile_append2) (auto simp: valid_name_def)

lemma join_nonempty: "xs \<noteq> [] \<Longrightarrow> \<forall>s \<in> set xs. valid_name s \<Longrightarrow> join ''/'' xs \<noteq> []"
  by (cases xs) (auto simp: join_Cons valid_name_def)

lemma join_head:
  assumes "valid_name x"
  shows "takeWhile (\<lambda>c. c \<noteq> CHR ''/'') (join ''/'' (x # xs)) = x"
proof (cases xs)
  case Nil
  with assms show ?thesis by (auto simp: valid_name_def takeWhile_eq_all_conv)
next
  case (Cons y ys)
  with assms show ?thesis using takeWhile_valid[of x] by (simp add: join_Cons)
qed

lemma join_inj:
  "\<forall>s \<in> set xs. valid_name s \<Longrightarrow> \<forall>s \<in> set ys. valid_name s
     \<Longrightarrow> join ''/'' xs = join ''/'' ys \<Longrightarrow> xs = ys"
proof (induction xs arbitrary: ys)
  case Nil
  then show ?case using join_nonempty[of ys] by (cases ys) auto
next
  case (Cons x xs)
  show ?case
  proof (cases ys)
    case Nil
    with Cons.prems show ?thesis using join_nonempty[of "x # xs"] by auto
  next
    case (Cons y ys')
    with Cons.prems have "x = y" using join_head[of x xs] join_head[of y ys'] by simp
    with Cons Cons.prems have eq: "(if xs = [] then [] else ''/'' @ join ''/'' xs)
        = (if ys' = [] then [] else ''/'' @ join ''/'' ys')"
      by (simp add: join_Cons)
    have "xs = ys'"
    proof (cases "xs = []")
      case True
      with eq show ?thesis by (auto split: if_splits)
    next
      case False
      with eq have "ys' \<noteq> []" "join ''/'' xs = join ''/'' ys'" by (auto split: if_splits)
      with Cons.IH[of ys'] Cons.prems Cons show ?thesis by simp
    qed
    with \<open>x = y\<close> Cons show ?thesis by simp
  qed
qed

lemma examples_prefix:
  assumes "\<forall>s \<in> set p. valid_name s" "take 9 (join ''/'' p) = ''examples/''"
  shows "''examples'' \<in> set p"
proof (cases p)
  case Nil
  with assms show ?thesis by simp
next
  case (Cons x xs)
  from assms(2) have "join ''/'' p = ''examples/'' @ drop 9 (join ''/'' p)"
    by (metis append_take_drop_id)
  then have "takeWhile (\<lambda>c. c \<noteq> CHR ''/'') (join ''/'' p)
      = takeWhile (\<lambda>c. c \<noteq> CHR ''/'') (''examples/'' @ drop 9 (join ''/'' p))" by simp
  also have "\<dots> = ''examples''" by simp
  finally have "x = ''examples''" using Cons assms(1) join_head[of x xs] by simp
  with Cons show ?thesis by simp
qed

lemma bottom_up_flat:
  "bottom_up D T rp w = concat (map (\<lambda>q. scan_file D T rp (butlast q) (last q)) (flat_walk w))"
  unfolding bottom_up_def by (induction w) (auto simp: comp_def)

lemma flat_walk_tree_files:
  "count_list (flat_walk (os_walk keep [] es)) q = count_list (tree_files keep es) q"
proof -
  have "map ((@) []) (tree_files keep es) = tree_files keep es" by (simp add: map_idI)
  with walk_counts(1)[of keep "[]" es q] show ?thesis by (simp only:)
qed

lemma flat_walk_member:
  "q \<in> set (flat_walk (os_walk keep [] es)) \<longleftrightarrow> q \<in> set (tree_files keep es)"
  using flat_walk_tree_files[of keep es q] by (metis count_list_0_iff)

lemma count_concat_scaled:
  "\<forall>q \<in> set qs. count_list (F q) e = (if q = p then c else 0)
     \<Longrightarrow> count_list (concat (map F qs)) e = c * count_list qs p"
  by (induction qs) (auto simp: count_list_app)

lemma bottom_up_reports:
  assumes "UndeclaredCodeFile r \<in> set (bottom_up D T rp (os_walk keep [] es))"
  shows "\<exists>q \<in> set (tree_files keep es). r = join ''/'' q \<and> r \<notin> D \<and> r \<notin> T"
proof -
  from assms obtain q where q: "q \<in> set (flat_walk (os_walk keep [] es))"
      "UndeclaredCodeFile r \<in> set (scan_file D T rp (butlast q) (last q))"
    unfolding bottom_up_flat by (auto simp del: os_walk.simps)
  then have mem: "q \<in> set (tree_files keep es)" by (simp only: flat_walk_member)
  then have "q \<noteq> []" by (auto dest: tree_files_head)
  with q(2) scan_file_cases[of D T rp "butlast q" "last q"]
  have "r = join ''/'' q \<and> r \<notin> D \<and> r \<notin> T" by auto
  with mem show ?thesis by blast
qed

lemma scan_file_kind:
  "e \<in> set (scan_file D T rp segs f) \<Longrightarrow> \<exists>r. e = UndeclaredCodeFile r"
  by (auto simp: scan_file_def Let_def split: if_splits)

lemma bottom_up_kind:
  "e \<in> set (bottom_up D T rp w) \<Longrightarrow> \<exists>r. e = UndeclaredCodeFile r"
  unfolding bottom_up_flat by (auto dest!: scan_file_kind)

text \<open>
  In a well-formed tree the number of errors that name the relative path of a file is
  1 when the walk reaches the file and its scan reports it, and 0 otherwise.
\<close>

lemma bottom_up_count:
  assumes wf: "wf_tree es" and p: "p \<in> set (on_disk_files es)"
  shows "count_list (bottom_up D T rp (os_walk keep [] es)) (UndeclaredCodeFile (join ''/'' p))
           = (if p \<in> set (tree_files keep es) \<and> scan_file D T rp (butlast p) (last p) \<noteq> []
              then 1 else 0)"
proof -
  let ?F = "\<lambda>q. scan_file D T rp (butlast q) (last q)"
  let ?e = "UndeclaredCodeFile (join ''/'' p)"
  let ?c = "if ?F p = [] then 0 else (1::nat)"
  from wf p have valid_p: "\<forall>s \<in> set p. valid_name s" "p \<noteq> []"
    by (auto dest: on_disk_valid on_disk_head)
  have at_p: "count_list (?F p) ?e = ?c"
    using scan_file_cases[of D T rp "butlast p" "last p"] valid_p(2) by auto
  have each: "\<forall>q \<in> set (flat_walk (os_walk keep [] es)). count_list (?F q) ?e = (if q = p then ?c else 0)"
  proof
    fix q assume "q \<in> set (flat_walk (os_walk keep [] es))"
    then have q: "q \<in> set (tree_files keep es)" by (simp only: flat_walk_member)
    show "count_list (?F q) ?e = (if q = p then ?c else 0)"
    proof (cases "q = p")
      case True
      with at_p show ?thesis by simp
    next
      case False
      from q wf have vq: "\<forall>s \<in> set q. valid_name s" "q \<noteq> []"
        by (auto dest: tree_files_valid tree_files_head)
      with valid_p False have "join ''/'' q \<noteq> join ''/'' p" by (metis join_inj)
      with vq(2) scan_file_cases[of D T rp "butlast q" "last q"]
      have "?e \<notin> set (?F q)" by auto
      with False show ?thesis by (simp add: count_list_absent)
    qed
  qed
  have "count_list (bottom_up D T rp (os_walk keep [] es)) ?e
      = ?c * count_list (flat_walk (os_walk keep [] es)) p"
    unfolding bottom_up_flat using each by (rule count_concat_scaled)
  also have "\<dots> = ?c * count_list (tree_files keep es) p" by (simp only: flat_walk_tree_files)
  also have "\<dots> = (if p \<in> set (tree_files keep es) \<and> ?F p \<noteq> [] then 1 else 0)"
    using tree_files_distinct[OF wf, of keep]
    by (auto simp: count_list_distinct count_list_absent)
  finally show ?thesis .
qed

lemma no_code_extension_examples: "lower (splitext_ext ''examples'') \<notin> code_extensions"
  by (simp add: splitext_ext_def lower_def code_extensions_def)

section \<open>Properties of the symbol check of the code inventory\<close>

lemma extract_symbols_for_failure:
  "extract_symbols_for penv ext p = Some (Inl e)
   \<longleftrightarrow> (ext = ''.py'' \<and> extract_python_symbols penv p = Inl e
        \<or> ext \<in> {''.js'', ''.jsx'', ''.ts'', ''.tsx''} \<and> extract_javascript_symbols penv p = Inl e)"
  by (auto simp: extract_symbols_for_def)

lemma check_code_file_failure:
  assumes "path_exists env (path_join root_dir f)"
    and "map_of (must_define impl) f \<noteq> None"
    and "extract_symbols_for (parser_env.truncate env) (lower (splitext_ext f)) (path_join root_dir f)
           = Some (Inl e)"
  shows "check_code_file env root_dir impl f = [ExtractionFailed (id_tag impl) f e]"
  using assms by (auto simp: check_code_file_def symbol_errors_def Let_def)

lemma check_code_file_failure_only:
  assumes "ExtractionFailed i f' e \<in> set (check_code_file env root_dir impl f)"
  shows "i = id_tag impl \<and> f' = f \<and> path_exists env (path_join root_dir f)
         \<and> map_of (must_define impl) f \<noteq> None
         \<and> extract_symbols_for (parser_env.truncate env) (lower (splitext_ext f)) (path_join root_dir f)
              = Some (Inl e)"
proof (cases "path_exists env (path_join root_dir f)")
  case False
  with assms show ?thesis by (simp add: check_code_file_def Let_def)
next
  case ex: True
  show ?thesis
  proof (cases "map_of (must_define impl) f")
    case None
    with assms ex show ?thesis by (simp add: check_code_file_def Let_def)
  next
    case (Some req)
    show ?thesis
    proof (cases "extract_symbols_for (parser_env.truncate env) (lower (splitext_ext f))
                    (path_join root_dir f)")
      case None
      with assms ex Some show ?thesis by (simp add: check_code_file_def Let_def)
    next
      case (Some r)
      with assms ex \<open>map_of (must_define impl) f = Some req\<close>
      have "ExtractionFailed i f' e \<in> set (symbol_errors (id_tag impl) f req r)"
        by (simp add: check_code_file_def Let_def)
      then have "r = Inl e \<and> i = id_tag impl \<and> f' = f"
        by (auto dest!: symbol_errors_kind)
      with ex Some \<open>map_of (must_define impl) f = Some req\<close> show ?thesis by simp
    qed
  qed
qed

lemma top_down_member:
  "x \<in> set (top_down env impls root_dir)
   \<longleftrightarrow> (\<exists>impl \<in> set impls. \<exists>f \<in> set (code_files impl). x \<in> set (check_code_file env root_dir impl f))"
  by (auto simp: top_down_def)

lemma extract_symbols_for_cong:
  assumes "ast_parse env' = ast_parse env"
    and "ext \<in> {''.py'', ''.js'', ''.jsx'', ''.ts'', ''.tsx''} \<longrightarrow> read_text env' p = read_text env p"
  shows "extract_symbols_for env' ext p = extract_symbols_for env ext p"
  using assms
  by (auto simp: extract_symbols_for_def extract_python_symbols_def extract_javascript_symbols_def
        parse_javascript_with_regex_def parse_with_treesitter_def
      split: sum.splits py_exception.splits)

lemma check_code_file_cong:
  assumes "path_exists env' = path_exists env" "ast_parse env' = ast_parse env"
    and "path_exists env (path_join root_dir f) \<and> map_of (must_define impl) f \<noteq> None
         \<and> lower (splitext_ext f) \<in> {''.py'', ''.js'', ''.jsx'', ''.ts'', ''.tsx''}
           \<longrightarrow> read_text env' (path_join root_dir f) = read_text env (path_join root_dir f)"
  shows "check_code_file env' root_dir impl f = check_code_file env root_dir impl f"
proof (cases "path_exists env (path_join root_dir f) \<and> map_of (must_define impl) f \<noteq> None")
  case True
  with assms(3) have "lower (splitext_ext f) \<in> {''.py'', ''.js'', ''.jsx'', ''.ts'', ''.tsx''}
      \<longrightarrow> read_text (parser_env.truncate env') (path_join root_dir f)
          = read_text (parser_env.truncate env) (path_join root_dir f)"
    by (simp add: parser_env.truncate_def)
  moreover from assms(2) have "ast_parse (parser_env.truncate env') = ast_parse (parser_env.truncate env)"
    by (simp add: parser_env.truncate_def)
  ultimately have "extract_symbols_for (parser_env.truncate env') (lower (splitext_ext f)) (path_join root_dir f)
      = extract_symbols_for (parser_env.truncate env) (lower (splitext_ext f)) (path_join root_dir f)"
    by (rule extract_symbols_for_cong[rotated])
  with assms(1) show ?thesis by (simp add: check_code_file_def Let_def split: option.splits)
next
  case False
  with assms(1) show ?thesis
    by (cases "map_of (must_define impl) f") (auto simp: check_code_file_def Let_def)
qed

text \<open>
  C7, as the code has it.  The walk of the directory tree is outside the \<open>try\<close> block,
  so the check raises for a root directory whose name holds a NUL character.  For every
  other root directory it returns an error list, and in that list: (1) when
  \<open>extract_python_symbols\<close> fails on a declared \<open>.py\<close> file, or
  \<open>extract_javascript_symbols\<close> fails on a declared \<open>.js\<close>, \<open>.jsx\<close>, \<open>.ts\<close> or
  \<open>.tsx\<close> file, and the file exists and has an entry in \<open>must_define\<close>, the failure is
  an entry of the list, with the id of the Implementation, the file and the text of the
  failure; (2) every such entry comes from such a failure; (3) the result does not depend
  on the content of any other file: no extractor is run on one.
\<close>

theorem extraction_failures_are_errors:
  fixes env :: "'a environment_scheme"
  assumes root: "CHR 0x00 \<notin> set root_dir"
  shows "\<exists>errors. validate_code_inventory env impls goals_arg root_dir = Inr errors
   \<and> (\<forall>impl \<in> set impls. \<forall>f \<in> set (code_files impl). \<forall>e.
       path_exists env (path_join root_dir f) \<and> map_of (must_define impl) f \<noteq> None
       \<and> (lower (splitext_ext f) = ''.py''
            \<and> extract_python_symbols (parser_env.truncate env) (path_join root_dir f) = Inl e
          \<or> lower (splitext_ext f) \<in> {''.js'', ''.jsx'', ''.ts'', ''.tsx''}
            \<and> extract_javascript_symbols (parser_env.truncate env) (path_join root_dir f) = Inl e)
       \<longrightarrow> ExtractionFailed (id_tag impl) f e \<in> set errors)
   \<and> (\<forall>i f e. ExtractionFailed i f e \<in> set errors
       \<longrightarrow> (\<exists>impl \<in> set impls. id_tag impl = i \<and> f \<in> set (code_files impl)
              \<and> path_exists env (path_join root_dir f) \<and> map_of (must_define impl) f \<noteq> None
              \<and> (lower (splitext_ext f) = ''.py''
                   \<and> extract_python_symbols (parser_env.truncate env) (path_join root_dir f) = Inl e
                 \<or> lower (splitext_ext f) \<in> {''.js'', ''.jsx'', ''.ts'', ''.tsx''}
                   \<and> extract_javascript_symbols (parser_env.truncate env) (path_join root_dir f)
                        = Inl e)))
   \<and> (\<forall>env' :: 'b environment_scheme. path_exists env' = path_exists env \<and> listing env' = listing env
          \<and> abspath_parts env' = abspath_parts env \<and> ast_parse env' = ast_parse env
          \<and> (\<forall>impl \<in> set impls. \<forall>f \<in> set (code_files impl).
                path_exists env (path_join root_dir f) \<and> map_of (must_define impl) f \<noteq> None
                \<and> lower (splitext_ext f) \<in> {''.py'', ''.js'', ''.jsx'', ''.ts'', ''.tsx''}
                \<longrightarrow> read_text env' (path_join root_dir f) = read_text env (path_join root_dir f))
       \<longrightarrow> validate_code_inventory env' impls goals_arg root_dir = Inr errors)"
proof -
  let ?D = "set (concat (map code_files impls))"
  let ?T = "declared_test_files impls goals_arg"
  let ?bottom = "bottom_up ?D ?T (abspath_parts env root_dir)
                   (os_walk (\<lambda>d. d \<notin> excluded_dirs) [] (listing env root_dir))"
  let ?errors = "top_down env impls root_dir @ ?bottom"
  have returns: "validate_code_inventory env impls goals_arg root_dir = Inr ?errors"
    by (rule validate_code_inventory_returns[OF root])
  have reported: "ExtractionFailed (id_tag impl) f e \<in> set ?errors"
    if "impl \<in> set impls" "f \<in> set (code_files impl)"
      and "path_exists env (path_join root_dir f) \<and> map_of (must_define impl) f \<noteq> None
       \<and> (lower (splitext_ext f) = ''.py''
            \<and> extract_python_symbols (parser_env.truncate env) (path_join root_dir f) = Inl e
          \<or> lower (splitext_ext f) \<in> {''.js'', ''.jsx'', ''.ts'', ''.tsx''}
            \<and> extract_javascript_symbols (parser_env.truncate env) (path_join root_dir f) = Inl e)"
    for impl f e
  proof -
    from that(3) have "extract_symbols_for (parser_env.truncate env) (lower (splitext_ext f))
        (path_join root_dir f) = Some (Inl e)"
      unfolding extract_symbols_for_failure by blast
    with that(3) have "ExtractionFailed (id_tag impl) f e \<in> set (check_code_file env root_dir impl f)"
      by (simp add: check_code_file_failure)
    with that(1,2) have "ExtractionFailed (id_tag impl) f e \<in> set (top_down env impls root_dir)"
      unfolding top_down_member by blast
    then show ?thesis by simp
  qed
  have caused: "\<exists>impl \<in> set impls. id_tag impl = i \<and> f \<in> set (code_files impl)
              \<and> path_exists env (path_join root_dir f) \<and> map_of (must_define impl) f \<noteq> None
              \<and> (lower (splitext_ext f) = ''.py''
                   \<and> extract_python_symbols (parser_env.truncate env) (path_join root_dir f) = Inl e
                 \<or> lower (splitext_ext f) \<in> {''.js'', ''.jsx'', ''.ts'', ''.tsx''}
                   \<and> extract_javascript_symbols (parser_env.truncate env) (path_join root_dir f)
                        = Inl e)"
    if "ExtractionFailed i f e \<in> set ?errors" for i f e
  proof -
    from that have "ExtractionFailed i f e \<in> set (top_down env impls root_dir)"
      by (auto dest: bottom_up_kind)
    then obtain impl f' where m: "impl \<in> set impls" "f' \<in> set (code_files impl)"
        "ExtractionFailed i f e \<in> set (check_code_file env root_dir impl f')"
      unfolding top_down_member by blast
    from check_code_file_failure_only[OF m(3)]
    have "i = id_tag impl" "f = f'" "path_exists env (path_join root_dir f')"
        "map_of (must_define impl) f' \<noteq> None"
        "extract_symbols_for (parser_env.truncate env) (lower (splitext_ext f')) (path_join root_dir f')
              = Some (Inl e)"
      by simp_all
    with m(1,2) show ?thesis unfolding extract_symbols_for_failure by blast
  qed
  have independent: "validate_code_inventory env' impls goals_arg root_dir = Inr ?errors"
    if a: "path_exists env' = path_exists env \<and> listing env' = listing env
          \<and> abspath_parts env' = abspath_parts env \<and> ast_parse env' = ast_parse env
          \<and> (\<forall>impl \<in> set impls. \<forall>f \<in> set (code_files impl).
                path_exists env (path_join root_dir f) \<and> map_of (must_define impl) f \<noteq> None
                \<and> lower (splitext_ext f) \<in> {''.py'', ''.js'', ''.jsx'', ''.ts'', ''.tsx''}
                \<longrightarrow> read_text env' (path_join root_dir f) = read_text env (path_join root_dir f))"
    for env' :: "'b environment_scheme"
  proof -
    from a have "check_code_file env' root_dir impl f = check_code_file env root_dir impl f"
      if "impl \<in> set impls" "f \<in> set (code_files impl)" for impl f
      using that by (intro check_code_file_cong) auto
    then have "top_down env' impls root_dir = top_down env impls root_dir"
      unfolding top_down_def by (intro arg_cong[where f = concat] map_cong) auto
    with a validate_code_inventory_returns[OF root, of env' impls goals_arg]
    show ?thesis by simp
  qed
  from returns reported caused independent show ?thesis by blast
qed

theorem extraction_failures_are_errors_witness:
  "CHR 0x00 \<notin> set ''.''
   \<and> lower (splitext_ext ''src/a.py'') = ''.py''
   \<and> path_exists ex_broken (path_join ''.'' ''src/a.py'')
   \<and> map_of (must_define ex_J1) ''src/a.py'' \<noteq> None
   \<and> extract_python_symbols (parser_env.truncate ex_broken) (path_join ''.'' ''src/a.py'')
       = Inl ''Syntax error in ./src/a.py: invalid syntax''
   \<and> validate_code_inventory ex_broken [ex_J1] None ''.''
       = Inr [ExtractionFailed ''I-1'' ''src/a.py'' ''Syntax error in ./src/a.py: invalid syntax'',
              UndeclaredCodeFile ''src/b.py'', UndeclaredCodeFile ''tests/uat/test_example.py'']
   \<and> validate_code_inventory
         (ex_broken \<lparr> read_text := (\<lambda>p. if p = ''./src/a.py'' then Inr ''def f(:'' else Inr ''x = 1'') \<rparr>)
         [ex_J1] None ''.''
       = validate_code_inventory ex_broken [ex_J1] None ''.''
   \<and> lower (splitext_ext ''src/w.js'') = ''.js''
   \<and> path_exists ex_locked (path_join ''.'' ''src/w.js'')
   \<and> map_of (must_define ex_JS) ''src/w.js'' \<noteq> None
   \<and> extract_javascript_symbols (parser_env.truncate ex_locked) (path_join ''.'' ''src/w.js'')
       = Inl ''Failed to parse ./src/w.js: Permission denied''
   \<and> (\<exists>errors. validate_code_inventory ex_locked [ex_JS] None ''.'' = Inr errors
         \<and> ExtractionFailed ''I-3'' ''src/w.js'' ''Failed to parse ./src/w.js: Permission denied''
             \<in> set errors)"
proof -
  have root: "CHR 0x00 \<notin> set ''.''" by simp
  note P = extraction_failures_are_errors
             [OF root, where env = ex_broken and impls = "[ex_J1]" and goals_arg = None]
  note J = extraction_failures_are_errors
             [OF root, where env = ex_locked and impls = "[ex_JS]" and goals_arg = None]
  have p: "path_join ''.'' ''src/a.py'' = ''./src/a.py''" "path_join ''.'' ''src/w.js'' = ''./src/w.js''"
    by (simp_all add: path_join_def)
  have x: "lower (splitext_ext ''src/a.py'') = ''.py''" "lower (splitext_ext ''src/w.js'') = ''.js''"
    by (simp_all add: splitext_ext_def lower_def lower_char_def)
  have h1: "path_exists ex_broken (path_join ''.'' ''src/a.py'')"
    by (simp add: p ex_env_def ex_broken_def)
  have h2: "map_of (must_define ex_J1) ''src/a.py'' \<noteq> None"
    by (simp add: ex_J1_def ex_X1_def ex_goal_def init_defs)
  have h3: "extract_python_symbols (parser_env.truncate ex_broken) (path_join ''.'' ''src/a.py'')
       = Inl ''Syntax error in ./src/a.py: invalid syntax''"
    by (simp add: p extract_python_symbols_def parser_env.truncate_def ex_env_def ex_broken_def)
  have mem: "ex_J1 \<in> set [ex_J1]" "''src/a.py'' \<in> set (code_files ex_J1)" "id_tag ex_J1 = ''I-1''"
    by (simp_all add: ex_J1_def ex_X1_def ex_goal_def init_defs)
  have k1: "path_exists ex_locked (path_join ''.'' ''src/w.js'')"
    by (simp add: p ex_env_def ex_locked_def)
  have k2: "map_of (must_define ex_JS) ''src/w.js'' \<noteq> None"
    by (simp add: ex_JS_def ex_X1_def ex_goal_def init_defs)
  have k3: "extract_javascript_symbols (parser_env.truncate ex_locked) (path_join ''.'' ''src/w.js'')
       = Inl ''Failed to parse ./src/w.js: Permission denied''"
    by (simp add: p extract_javascript_symbols_def parse_with_treesitter_def
          parse_javascript_with_regex_def parser_env.truncate_def ex_env_def ex_locked_def)
  have memJ: "ex_JS \<in> set [ex_JS]" "''src/w.js'' \<in> set (code_files ex_JS)" "id_tag ex_JS = ''I-3''"
    by (simp_all add: ex_JS_def ex_X1_def ex_goal_def init_defs)
  have fields:
    "path_exists ex_broken = (\<lambda>p. p \<in> {''./src/a.py'', ''./src/b.py'', ''./tests/uat/test_example.py''})"
    "listing ex_broken ''.'' = [Dir ''src'' [File ''a.py'', File ''b.py''],
                               Dir ''tests'' [Dir ''uat'' [File ''test_example.py'']]]"
    "abspath_parts ex_broken ''.'' = ['''', ''home'', ''dev'', ''project'']"
    by (simp_all add: ex_env_def ex_broken_def)
  have result: "validate_code_inventory ex_broken [ex_J1] None ''.''
       = Inr [ExtractionFailed ''I-1'' ''src/a.py'' ''Syntax error in ./src/a.py: invalid syntax'',
              UndeclaredCodeFile ''src/b.py'', UndeclaredCodeFile ''tests/uat/test_example.py'']"
    by (simp add: validate_code_inventory_def walk_root_def top_down_def bottom_up_def
          declared_test_files_def scan_file_def check_code_file_def extract_symbols_for_def
          symbol_errors_def h3[unfolded p] p fields splitext_ext_def lower_def lower_char_def
          code_extensions_def excluded_dirs_def
          ex_J1_def ex_X1_def ex_goal_def init_defs Let_def)
  let ?env' = "ex_broken \<lparr> read_text := (\<lambda>p. if p = ''./src/a.py'' then Inr ''def f(:'' else Inr ''x = 1'') \<rparr>"
  have agree: "path_exists ?env' = path_exists ex_broken" "listing ?env' = listing ex_broken"
      "abspath_parts ?env' = abspath_parts ex_broken" "ast_parse ?env' = ast_parse ex_broken"
    by simp_all
  have same: "\<forall>impl \<in> set [ex_J1]. \<forall>f \<in> set (code_files impl).
                path_exists ex_broken (path_join ''.'' f) \<and> map_of (must_define impl) f \<noteq> None
                \<and> lower (splitext_ext f) \<in> {''.py'', ''.js'', ''.jsx'', ''.ts'', ''.tsx''}
                \<longrightarrow> read_text ?env' (path_join ''.'' f) = read_text ex_broken (path_join ''.'' f)"
    by (simp add: p ex_J1_def ex_X1_def ex_goal_def init_defs ex_env_def ex_broken_def)
  from P obtain errors where e: "validate_code_inventory ex_broken [ex_J1] None ''.'' = Inr errors"
      and ind: "\<forall>env' :: environment. path_exists env' = path_exists ex_broken \<and> listing env' = listing ex_broken
          \<and> abspath_parts env' = abspath_parts ex_broken \<and> ast_parse env' = ast_parse ex_broken
          \<and> (\<forall>impl \<in> set [ex_J1]. \<forall>f \<in> set (code_files impl).
                path_exists ex_broken (path_join ''.'' f) \<and> map_of (must_define impl) f \<noteq> None
                \<and> lower (splitext_ext f) \<in> {''.py'', ''.js'', ''.jsx'', ''.ts'', ''.tsx''}
                \<longrightarrow> read_text env' (path_join ''.'' f) = read_text ex_broken (path_join ''.'' f))
       \<longrightarrow> validate_code_inventory env' [ex_J1] None ''.'' = Inr errors"
    by blast
  from ind[rule_format, of ?env'] agree same e
  have r2: "validate_code_inventory ?env' [ex_J1] None ''.''
       = validate_code_inventory ex_broken [ex_J1] None ''.''"
    by simp
  from J obtain errs where j: "validate_code_inventory ex_locked [ex_JS] None ''.'' = Inr errs"
      and rep: "\<forall>impl \<in> set [ex_JS]. \<forall>f \<in> set (code_files impl). \<forall>e.
       path_exists ex_locked (path_join ''.'' f) \<and> map_of (must_define impl) f \<noteq> None
       \<and> (lower (splitext_ext f) = ''.py''
            \<and> extract_python_symbols (parser_env.truncate ex_locked) (path_join ''.'' f) = Inl e
          \<or> lower (splitext_ext f) \<in> {''.js'', ''.jsx'', ''.ts'', ''.tsx''}
            \<and> extract_javascript_symbols (parser_env.truncate ex_locked) (path_join ''.'' f) = Inl e)
       \<longrightarrow> ExtractionFailed (id_tag impl) f e \<in> set errs"
    by blast
  from rep[rule_format, OF memJ(1) memJ(2), of "''Failed to parse ./src/w.js: Permission denied''"]
    k1 k2 k3 x(2) memJ(3)
  have "ExtractionFailed ''I-3'' ''src/w.js'' ''Failed to parse ./src/w.js: Permission denied''
          \<in> set errs"
    by simp
  with j have r3: "\<exists>errors. validate_code_inventory ex_locked [ex_JS] None ''.'' = Inr errors
         \<and> ExtractionFailed ''I-3'' ''src/w.js'' ''Failed to parse ./src/w.js: Permission denied''
             \<in> set errors"
    by blast
  from root x h1 h2 h3 result r2 k1 k2 k3 r3 show ?thesis by blast
qed

text \<open>
  C7 as stated fails for a root directory whose name holds a NUL character: the walk of
  the tree raises \<open>ValueError\<close>, outside the \<open>try\<close> block, and the check returns no
  error list.
\<close>

theorem code_inventory_raises_counterexample:
  "validate_code_inventory ex_env [] None [CHR 0x00] = Inl (ValueError ''embedded null byte'')"
  by (simp add: validate_code_inventory_def walk_root_def Let_def)

section \<open>Properties of the declared acceptance tests\<close>

text \<open>
  C9, as the code has it.  The acceptance-test paths of the supplied Goals are added to
  the declared test files as they are written, and the scan compares them with the
  relative path it computes for a file: the path components below the root, joined by the
  separator.  So when a Goal names a file by exactly that relative path, the check
  returns an error list in which no undeclared-file error names the file: every
  undeclared-file error reports another file on disk.
\<close>

theorem acceptance_test_file_not_reported:
  assumes root: "CHR 0x00 \<notin> set root_dir"
    and goal: "g \<in> set gs"
    and named: "acceptance_test g = join ''/'' (segs @ [file])"
  shows "\<exists>errors. validate_code_inventory env impls (Some gs) root_dir = Inr errors
           \<and> UndeclaredCodeFile (join ''/'' (segs @ [file])) \<notin> set errors
           \<and> (\<forall>r. UndeclaredCodeFile r \<in> set errors
                 \<longrightarrow> (\<exists>q \<in> set (on_disk_files (listing env root_dir)).
                        q \<noteq> segs @ [file] \<and> r = join ''/'' q))"
proof -
  let ?D = "set (concat (map code_files impls))"
  let ?T = "declared_test_files impls (Some gs)"
  let ?bottom = "bottom_up ?D ?T (abspath_parts env root_dir)
                   (os_walk (\<lambda>d. d \<notin> excluded_dirs) [] (listing env root_dir))"
  let ?errors = "top_down env impls root_dir @ ?bottom"
  from goal have "gs \<noteq> []" and "acceptance_test g \<in> set (map acceptance_test gs)"
    by auto
  with named have declared: "join ''/'' (segs @ [file]) \<in> ?T"
    by (simp add: declared_test_files_def)
  have other: "\<exists>q \<in> set (on_disk_files (listing env root_dir)).
                 q \<noteq> segs @ [file] \<and> r = join ''/'' q"
    if "UndeclaredCodeFile r \<in> set ?errors" for r
  proof -
    from that have "UndeclaredCodeFile r \<in> set ?bottom"
      using top_down_not_undeclared[of r env impls root_dir] by simp
    then obtain q where q: "q \<in> set (tree_files (\<lambda>d. d \<notin> excluded_dirs) (listing env root_dir))"
        "r = join ''/'' q" "r \<notin> ?T"
      by (blast dest: bottom_up_reports)
    with declared have "q \<noteq> segs @ [file]" by auto
    with q show ?thesis by (blast dest: tree_files_on_disk)
  qed
  have here: "UndeclaredCodeFile (join ''/'' (segs @ [file])) \<notin> set ?errors"
  proof
    assume "UndeclaredCodeFile (join ''/'' (segs @ [file])) \<in> set ?errors"
    then have "UndeclaredCodeFile (join ''/'' (segs @ [file])) \<in> set ?bottom"
      using top_down_not_undeclared[of "join ''/'' (segs @ [file])" env impls root_dir] by simp
    then have "join ''/'' (segs @ [file]) \<notin> ?T"
      by (blast dest: bottom_up_reports)
    with declared show False by simp
  qed
  from here other validate_code_inventory_returns[OF root, of env impls "Some gs"]
  show ?thesis by blast
qed

theorem acceptance_test_file_not_reported_witness:
  "CHR 0x00 \<notin> set ''.'' \<and> ex_goal \<in> set [ex_goal]
   \<and> acceptance_test ex_goal = join ''/'' ([''tests'', ''uat''] @ [''test_example.py''])
   \<and> [''tests'', ''uat''] @ [''test_example.py''] \<in> set (on_disk_files (listing ex_env ''.''))
   \<and> (\<exists>errors. validate_code_inventory ex_env [] (Some [ex_goal]) ''.'' = Inr errors
          \<and> UndeclaredCodeFile ''tests/uat/test_example.py'' \<notin> set errors)
   \<and> validate_code_inventory ex_env [] None ''.''
       = Inr [UndeclaredCodeFile ''src/a.py'', UndeclaredCodeFile ''src/b.py'',
              UndeclaredCodeFile ''tests/uat/test_example.py'']"
proof -
  have root: "CHR 0x00 \<notin> set ''.''" by simp
  have goal: "ex_goal \<in> set [ex_goal]" by simp
  have named: "acceptance_test ex_goal = join ''/'' ([''tests'', ''uat''] @ [''test_example.py''])"
    by (simp add: ex_goal_def init_defs)
  have disk: "[''tests'', ''uat''] @ [''test_example.py''] \<in> set (on_disk_files (listing ex_env ''.''))"
    by (simp add: ex_env_def)
  have without: "validate_code_inventory ex_env [] None ''.''
       = Inr [UndeclaredCodeFile ''src/a.py'', UndeclaredCodeFile ''src/b.py'',
              UndeclaredCodeFile ''tests/uat/test_example.py'']"
    by (simp add: validate_code_inventory_def walk_root_def top_down_def bottom_up_def
          declared_test_files_def scan_file_def splitext_ext_def lower_def lower_char_def
          code_extensions_def excluded_dirs_def ex_env_def Let_def)
  from acceptance_test_file_not_reported[OF root goal named, of ex_env "[]"]
  have "\<exists>errors. validate_code_inventory ex_env [] (Some [ex_goal]) ''.'' = Inr errors
          \<and> UndeclaredCodeFile ''tests/uat/test_example.py'' \<notin> set errors"
    by auto
  with root goal named disk without show ?thesis by blast
qed

text \<open>
  C9 as stated fails for a Goal that names its acceptance test with a leading \<open>./\<close>:
  the test inventory finds the file under that name, no Implementation names it, the
  goals are supplied, and the file is reported as undeclared.
\<close>

theorem acceptance_test_counterexample:
  "ex_goal_dot \<in> set [ex_goal_dot]
   \<and> acceptance_test ex_goal_dot = ''./tests/uat/test_example.py''
   \<and> [''tests'', ''uat'', ''test_example.py''] \<in> set (on_disk_files (listing ex_dot ''.''))
   \<and> validate_test_inventory ex_dot [ex_goal_dot] [] ''.'' = []
   \<and> validate_code_inventory ex_dot [] (Some [ex_goal_dot]) ''.''
       = Inr [UndeclaredCodeFile ''src/a.py'', UndeclaredCodeFile ''src/b.py'',
              UndeclaredCodeFile ''tests/uat/test_example.py'']"
  by (simp add: validate_code_inventory_def walk_root_def top_down_def bottom_up_def
        declared_test_files_def scan_file_def splitext_ext_def lower_def lower_char_def
        code_extensions_def excluded_dirs_def validate_test_inventory_def path_join_def
        ex_dot_def ex_env_def ex_goal_dot_def init_defs Let_def)

section \<open>Properties of the bottom-up scan\<close>

text \<open>
  C5, as the code has it.  Take a file on disk below the project root, with a supported
  source extension, whose root-relative path is in no Implementation's \<open>code_files\<close> or
  \<open>test_files\<close> and is no acceptance test of a supplied Goal.  The check returns an error
  list, and the number of undeclared-file errors in it that name the relative path is 0
  when the file is skipped and 1 when it is not.  The file is skipped when a directory on
  the way to it has one of the excluded names, when a directory on the way to it is one
  that \<open>os.walk\<close> does not enter (a symbolic link or an unreadable directory), and when a
  component of the absolute path of the project root is \<open>examples\<close>.
\<close>

theorem undeclared_file_reported_once:
  assumes wf: "wf_tree (listing env root_dir)"
    and root: "CHR 0x00 \<notin> set root_dir"
    and on_disk: "segs @ [file] \<in> set (on_disk_files (listing env root_dir))"
    and ext: "lower (splitext_ext file) \<in> code_extensions"
    and undeclared: "\<forall>impl \<in> set impls. join ''/'' (segs @ [file]) \<notin> set (code_files impl)
                       \<and> join ''/'' (segs @ [file]) \<notin> set (test_files impl)"
    and no_acceptance: "\<forall>gs. goals_arg = Some gs
                       \<longrightarrow> (\<forall>g \<in> set gs. acceptance_test g \<noteq> join ''/'' (segs @ [file]))"
  shows "\<exists>errors. validate_code_inventory env impls goals_arg root_dir = Inr errors
           \<and> count_list errors (UndeclaredCodeFile (join ''/'' (segs @ [file])))
               = (if (\<exists>d \<in> set segs. d \<in> excluded_dirs)
                     \<or> \<not> walkable (listing env root_dir) segs
                     \<or> ''examples'' \<in> set (abspath_parts env root_dir)
                  then 0 else 1)"
proof -
  let ?p = "segs @ [file]"
  let ?keep = "\<lambda>d. d \<notin> excluded_dirs"
  let ?tree = "listing env root_dir"
  let ?D = "set (concat (map code_files impls))"
  let ?T = "declared_test_files impls goals_arg"
  let ?rp = "abspath_parts env root_dir"
  let ?e = "UndeclaredCodeFile (join ''/'' ?p)"
  let ?skipped = "(\<exists>d \<in> set segs. d \<in> excluded_dirs) \<or> \<not> walkable ?tree segs
                    \<or> ''examples'' \<in> set ?rp"
  from wf on_disk have valid_p: "\<forall>s \<in> set ?p. valid_name s" by (rule on_disk_valid)
  from undeclared have nD: "join ''/'' ?p \<notin> ?D" by auto
  from undeclared no_acceptance have nT: "join ''/'' ?p \<notin> ?T"
    by (auto simp: declared_test_files_def split: option.splits if_splits)
  have reached: "?p \<in> set (tree_files ?keep ?tree)
      \<longleftrightarrow> (\<forall>d \<in> set segs. d \<notin> excluded_dirs) \<and> walkable ?tree segs"
    using tree_files_iff[OF wf, of ?p ?keep] on_disk by simp
  have scanned: "scan_file ?D ?T ?rp (butlast ?p) (last ?p) \<noteq> []" if "\<not> ?skipped"
  proof -
    have "file \<noteq> ''examples''" using ext no_code_extension_examples by blast
    moreover have "''examples'' \<in> excluded_dirs" by (simp add: excluded_dirs_def)
    ultimately have "''examples'' \<notin> set segs" "''examples'' \<noteq> file"
      using that by blast+
    then have no_ex: "''examples'' \<notin> set ?p" by simp
    with valid_p have no_prefix: "take 9 (join ''/'' ?p) \<noteq> ''examples/''"
      using examples_prefix[of ?p] by blast
    from that have "''examples'' \<notin> set ?rp" by simp
    from scan_file_reported[OF ext no_ex this no_prefix nD nT] show ?thesis by simp
  qed
  have not_scanned: "scan_file ?D ?T ?rp (butlast ?p) (last ?p) = []"
    if "''examples'' \<in> set ?rp"
    using that scan_file_cases[of ?D ?T ?rp "butlast ?p" "last ?p"] by blast
  have bottom: "count_list (bottom_up ?D ?T ?rp (os_walk ?keep [] ?tree)) ?e
      = (if ?skipped then 0 else 1)"
  proof (cases ?skipped)
    case True
    then have "?p \<notin> set (tree_files ?keep ?tree)
        \<or> scan_file ?D ?T ?rp (butlast ?p) (last ?p) = []"
      using reached not_scanned by blast
    with True show ?thesis
      unfolding bottom_up_count[OF wf on_disk] by (simp only: if_True) auto
  next
    case False
    then have "?p \<in> set (tree_files ?keep ?tree)" using reached by blast
    with False scanned show ?thesis
      unfolding bottom_up_count[OF wf on_disk] by simp
  qed
  have top: "count_list (top_down env impls root_dir) ?e = 0"
    by (rule count_list_absent) (rule top_down_not_undeclared)
  have "count_list (top_down env impls root_dir @ bottom_up ?D ?T ?rp (os_walk ?keep [] ?tree)) ?e
      = (if ?skipped then 0 else 1)"
    unfolding count_list_app top bottom by simp
  with validate_code_inventory_returns[OF root, of env impls goals_arg] show ?thesis
    by blast
qed

lemma ex_env_fields:
  "listing ex_env ''.'' = [Dir ''src'' [File ''a.py'', File ''b.py''],
                          Dir ''tests'' [Dir ''uat'' [File ''test_example.py'']]]"
  "abspath_parts ex_env ''.'' = ['''', ''home'', ''dev'', ''project'']"
  "listing ex_demo = listing ex_env"
  "abspath_parts ex_demo ''.'' = ['''', ''home'', ''dev'', ''examples'', ''demo'']"
  "listing ex_wide ''.'' = [Dir ''src'' [File ''a.py'', File ''b.py''],
                           Dir ''.git'' [File ''hook.py''],
                           Link ''vendor'' [File ''lib.py''],
                           Unreadable ''private'' [File ''key.py''],
                           Dir ''tests'' [Dir ''uat'' [File ''test_example.py'']]]"
  "abspath_parts ex_wide ''.'' = ['''', ''home'', ''dev'', ''project'']"
  by (simp_all add: ex_env_def ex_demo_def ex_wide_def)

lemmas scan_defs =
  validate_code_inventory_def walk_root_def top_down_def bottom_up_def
  declared_test_files_def scan_file_def splitext_ext_def
  lower_def lower_char_def code_extensions_def excluded_dirs_def Let_def

theorem undeclared_file_reported_once_witness:
  "wf_tree (listing ex_wide ''.'') \<and> CHR 0x00 \<notin> set ''.''
   \<and> [''src''] @ [''b.py''] \<in> set (on_disk_files (listing ex_wide ''.''))
   \<and> [''.git''] @ [''hook.py''] \<in> set (on_disk_files (listing ex_wide ''.''))
   \<and> [''vendor''] @ [''lib.py''] \<in> set (on_disk_files (listing ex_wide ''.''))
   \<and> lower (splitext_ext ''b.py'') \<in> code_extensions
   \<and> lower (splitext_ext ''hook.py'') \<in> code_extensions
   \<and> lower (splitext_ext ''lib.py'') \<in> code_extensions
   \<and> code_files ex_J1 = [''src/a.py''] \<and> test_files ex_J1 = []
   \<and> acceptance_test ex_goal = ''tests/uat/test_example.py''
   \<and> (\<exists>errors. validate_code_inventory ex_wide [ex_J1] (Some [ex_goal]) ''.'' = Inr errors
          \<and> count_list errors (UndeclaredCodeFile ''src/b.py'') = 1)
   \<and> (\<exists>errors. validate_code_inventory ex_wide [ex_J1] (Some [ex_goal]) ''.'' = Inr errors
          \<and> count_list errors (UndeclaredCodeFile ''.git/hook.py'') = 0)
   \<and> (\<exists>errors. validate_code_inventory ex_wide [ex_J1] (Some [ex_goal]) ''.'' = Inr errors
          \<and> count_list errors (UndeclaredCodeFile ''vendor/lib.py'') = 0)"
proof -
  have wf: "wf_tree (listing ex_wide ''.'')"
    by (simp add: ex_env_fields valid_name_def)
  have root: "CHR 0x00 \<notin> set ''.''" by simp
  have disk: "[''src''] @ [''b.py''] \<in> set (on_disk_files (listing ex_wide ''.''))"
      "[''.git''] @ [''hook.py''] \<in> set (on_disk_files (listing ex_wide ''.''))"
      "[''vendor''] @ [''lib.py''] \<in> set (on_disk_files (listing ex_wide ''.''))"
    by (simp_all add: ex_env_fields)
  have ext: "lower (splitext_ext ''b.py'') \<in> code_extensions"
      "lower (splitext_ext ''hook.py'') \<in> code_extensions"
      "lower (splitext_ext ''lib.py'') \<in> code_extensions"
    by (simp_all add: splitext_ext_def lower_def lower_char_def code_extensions_def)
  have decl: "code_files ex_J1 = [''src/a.py'']" "test_files ex_J1 = []"
      "acceptance_test ex_goal = ''tests/uat/test_example.py''"
    by (simp_all add: ex_J1_def ex_goal_def init_defs)
  have und: "\<forall>impl \<in> set [ex_J1]. join ''/'' ([''src''] @ [''b.py'']) \<notin> set (code_files impl)
                       \<and> join ''/'' ([''src''] @ [''b.py'']) \<notin> set (test_files impl)"
      "\<forall>impl \<in> set [ex_J1]. join ''/'' ([''.git''] @ [''hook.py'']) \<notin> set (code_files impl)
                       \<and> join ''/'' ([''.git''] @ [''hook.py'']) \<notin> set (test_files impl)"
      "\<forall>impl \<in> set [ex_J1]. join ''/'' ([''vendor''] @ [''lib.py'']) \<notin> set (code_files impl)
                       \<and> join ''/'' ([''vendor''] @ [''lib.py'']) \<notin> set (test_files impl)"
    by (simp_all add: decl)
  have acc: "\<forall>gs. Some [ex_goal] = Some gs
                \<longrightarrow> (\<forall>g \<in> set gs. acceptance_test g \<noteq> join ''/'' ([''src''] @ [''b.py'']))"
      "\<forall>gs. Some [ex_goal] = Some gs
                \<longrightarrow> (\<forall>g \<in> set gs. acceptance_test g \<noteq> join ''/'' ([''.git''] @ [''hook.py'']))"
      "\<forall>gs. Some [ex_goal] = Some gs
                \<longrightarrow> (\<forall>g \<in> set gs. acceptance_test g \<noteq> join ''/'' ([''vendor''] @ [''lib.py'']))"
    by (simp_all add: decl)
  have r1: "\<exists>errors. validate_code_inventory ex_wide [ex_J1] (Some [ex_goal]) ''.'' = Inr errors
          \<and> count_list errors (UndeclaredCodeFile ''src/b.py'') = 1"
    using undeclared_file_reported_once[OF wf root disk(1) ext(1) und(1) acc(1)]
    by (simp add: ex_env_fields excluded_dirs_def)
  have r2: "\<exists>errors. validate_code_inventory ex_wide [ex_J1] (Some [ex_goal]) ''.'' = Inr errors
          \<and> count_list errors (UndeclaredCodeFile ''.git/hook.py'') = 0"
    using undeclared_file_reported_once[OF wf root disk(2) ext(2) und(2) acc(2)]
    by (simp add: ex_env_fields excluded_dirs_def)
  have r3: "\<exists>errors. validate_code_inventory ex_wide [ex_J1] (Some [ex_goal]) ''.'' = Inr errors
          \<and> count_list errors (UndeclaredCodeFile ''vendor/lib.py'') = 0"
    using undeclared_file_reported_once[OF wf root disk(3) ext(3) und(3) acc(3)]
    by (simp add: ex_env_fields excluded_dirs_def)
  from wf root disk ext decl r1 r2 r3 show ?thesis by simp
qed

text \<open>
  C5 as stated fails in three ways.  A file named as the acceptance test of a supplied
  Goal and by no Implementation is not reported.  When the project root itself lies
  below a directory called \<open>examples\<close>, no file is reported at all.  And a file below
  a link to a directory or below an unreadable directory, none of them excluded by its
  name, is not reported either.
\<close>

theorem undeclared_file_counterexample:
  "[''tests'', ''uat'', ''test_example.py''] \<in> set (on_disk_files (listing ex_env ''.''))
   \<and> lower (splitext_ext ''test_example.py'') \<in> code_extensions
   \<and> validate_code_inventory ex_env [] (Some [ex_goal]) ''.''
       = Inr [UndeclaredCodeFile ''src/a.py'', UndeclaredCodeFile ''src/b.py'']
   \<and> on_disk_files (listing ex_demo ''.'')
       = [[''src'', ''a.py''], [''src'', ''b.py''], [''tests'', ''uat'', ''test_example.py'']]
   \<and> validate_code_inventory ex_demo [] None ''.'' = Inr []
   \<and> on_disk_files (listing ex_wide ''.'')
       = [[''src'', ''a.py''], [''src'', ''b.py''], [''.git'', ''hook.py''], [''vendor'', ''lib.py''],
          [''private'', ''key.py''], [''tests'', ''uat'', ''test_example.py'']]
   \<and> validate_code_inventory ex_wide [] None ''.''
       = Inr [UndeclaredCodeFile ''src/a.py'', UndeclaredCodeFile ''src/b.py'',
              UndeclaredCodeFile ''tests/uat/test_example.py'']"
  by (simp add: scan_defs ex_env_fields ex_goal_def init_defs)

section \<open>Properties of the full validation\<close>

lemma set_iteration_rev: "set_iteration rev"
  by (simp add: set_iteration_def)

text \<open>
  C8.  The architecture \<open>ex_cyclic\<close> has the cycle S-1, S-2 and no other defect.  The
  error list holds the ids of the path in the iteration order of a set, which is not
  fixed by the Goals, Solutions, Implementations and the file system: with the order of
  insertion the list is one message, with the opposite order it is another.
\<close>

theorem validation_depends_on_set_order:
  "set_iteration (\<lambda>xs. xs) \<and> set_iteration rev
   \<and> validation_errors (\<lambda>xs. xs) ex_env ex_cyclic
       = Inr [CircularDependency [''S-1'', ''S-2'', ''S-1'']]
   \<and> validation_errors rev ex_env ex_cyclic
       = Inr [CircularDependency [''S-2'', ''S-1'', ''S-1'']]"
proof -
  have t: "validate_traceability (implementations ex_cyclic) (solutions ex_cyclic) (goals ex_cyclic) = []"
    by (simp add: validate_traceability_def trace_impl_def orphaned_goals_def
          unimplemented_solutions_def solution_map_def goal_map_def ex_cyclic_def ex_goal_def ex_X1_def ex_X2_def ex_J1_def ex_J2_def init_defs)
  have d1: "validate_dependencies (\<lambda>xs. xs) (solutions ex_cyclic)
      = [CircularDependency [''S-1'', ''S-2'', ''S-1'']]"
    by (simp add: validate_dependencies_def solution_map_two ex_cyclic_def ex_goal_def ex_X1_def ex_X2_def ex_J1_def ex_J2_def init_defs)
  have d2: "validate_dependencies rev (solutions ex_cyclic)
      = [CircularDependency [''S-2'', ''S-1'', ''S-1'']]"
    by (simp add: validate_dependencies_def solution_map_two ex_cyclic_def ex_goal_def ex_X1_def ex_X2_def ex_J1_def ex_J2_def init_defs)
  have sym: "extract_python_symbols (parser_env.truncate ex_env) ''./src/a.py''
      = Inr \<lparr> classes = {}, functions = {''f''}, globals = {} \<rparr>"
    by (simp add: extract_python_symbols_def python_symbols_def walk_module_def
          parser_env.truncate_def ex_env_def)
  have fields:
    "path_exists ex_env = (\<lambda>p. p \<in> {''./src/a.py'', ''./src/b.py'', ''./tests/uat/test_example.py''})"
    "listing ex_env ''.'' = [Dir ''src'' [File ''a.py'', File ''b.py''],
                            Dir ''tests'' [Dir ''uat'' [File ''test_example.py'']]]"
    "abspath_parts ex_env ''.'' = ['''', ''home'', ''dev'', ''project'']"
    by (simp_all add: ex_env_def)
  have c: "validate_code_inventory ex_env (implementations ex_cyclic) (Some (goals ex_cyclic)) ''.'' = Inr []"
    by (simp add: validate_code_inventory_def walk_root_def top_down_def bottom_up_def
          declared_test_files_def scan_file_def
          check_code_file_def extract_symbols_for_def symbol_errors_def sym path_join_def
          splitext_ext_def lower_def lower_char_def code_extensions_def excluded_dirs_def
          fields ex_cyclic_def ex_goal_def ex_X1_def ex_X2_def ex_J1_def ex_J2_def init_defs Let_def)
  have i: "validate_test_inventory ex_env (goals ex_cyclic) (implementations ex_cyclic) ''.'' = []"
    by (simp add: validate_test_inventory_def path_join_def fields ex_cyclic_def ex_goal_def ex_X1_def ex_X2_def ex_J1_def ex_J2_def init_defs)
  show ?thesis
    by (simp add: validation_errors_def t d1 d2 c i set_iteration_insertion set_iteration_rev)
qed

theorem validation_depends_on_set_order_witness:
  "validation_errors (\<lambda>xs. xs) ex_env ex_cyclic \<noteq> validation_errors rev ex_env ex_cyclic"
  using validation_depends_on_set_order by simp

end
